theory Spec2Isabelle
  imports Complex_Main
begin

section \<open>Turtle graphics: data model\<close>

text \<open>
  The development embeds \<^verbatim>\<open>src/turtlesoup.ts\<close> twice. The first embedding takes a
  TypeScript \<^verbatim>\<open>number\<close> as an exact real. It follows the control flow of every function
  (loops, call order, array reads, palette) and serves the claims that do not depend on
  rounding, and the one claim that is stated over the reals. The second embedding, further
  down, takes a \<^verbatim>\<open>number\<close> as an IEEE 754 binary64 value with rounding to nearest, as
  the language does; the claims about computed numeric values are settled there.

  In both, a loop counter that starts at an integer literal and is only incremented is a
  \<open>nat\<close>, compared with a \<^verbatim>\<open>number\<close> bound through \<open>real\<close>, and a function that mutates
  the turtle it is handed takes the turtle and returns the new one.

  \<^verbatim>\<open>Point\<close> is the object type \<^verbatim>\<open>{ x: number; y: number }\<close>; its fields are named
  \<open>point_x\<close> and \<open>point_y\<close> here. \<^verbatim>\<open>Color\<close> is a string tag. A recorded stroke is the
  object \<^verbatim>\<open>{ start: Point; end: Point; color: Color }\<close> that \<^verbatim>\<open>renderSVGVisualization\<close>
  reads; its fields are \<open>seg_start\<close>, \<open>seg_end\<close> and \<open>seg_color\<close>.
\<close>

record Point =
  point_x :: real
  point_y :: real

type_synonym Color = string

record Segment =
  seg_start :: Point
  seg_end :: Point
  seg_color :: Color

section \<open>Built-in functions of the language\<close>

text \<open>
  \<^verbatim>\<open>Math.round\<close> returns the integer nearest to its argument, the larger one on a tie.
\<close>

definition Math_round :: "real \<Rightarrow> real" where
  "Math_round v = of_int \<lfloor>v + 1 / 2\<rfloor>"

text \<open>
  \<^verbatim>\<open>Math.atan2(y, x)\<close>: the angle of the point \<open>(x, y)\<close> in \<open>(-\<pi>, \<pi>]\<close>, and \<open>0\<close> at the
  origin (the real line has one zero, so the signed-zero cases collapse).
\<close>

definition Math_atan2 :: "real \<Rightarrow> real \<Rightarrow> real" where
  "Math_atan2 dy dx =
     (if 0 < dx then arctan (dy / dx)
      else if dx < 0 \<and> 0 \<le> dy then arctan (dy / dx) + pi
      else if dx < 0 then arctan (dy / dx) - pi
      else if 0 < dy then pi / 2
      else if dy < 0 then - (pi / 2)
      else 0)"

text \<open>
  \<^verbatim>\<open>v.toFixed(2)\<close>: a minus sign for a negative \<open>v\<close>, then the integer \<open>n\<close> for which
  \<open>n / 100\<close> is nearest to \<open>\<bar>v\<bar>\<close> (the larger on a tie), printed in decimal with a point
  before its last two digits. From \<open>10\<^sup>2\<^sup>1\<close> on the language prints exponent notation
  instead; the model keeps the plain digits there.
\<close>

definition digitChar :: "nat \<Rightarrow> char" where
  "digitChar d = ''0123456789'' ! d"

fun decimalDigits :: "nat \<Rightarrow> string" where
  "decimalDigits n =
     (if n < 10 then [digitChar n] else decimalDigits (n div 10) @ [digitChar (n mod 10)])"

definition toFixed2 :: "real \<Rightarrow> string" where
  "toFixed2 v =
     (let s = (if v < 0 then ''-'' else '''');
          a = (if v < 0 then - v else v);
          n = nat \<lfloor>a * 100 + 1 / 2\<rfloor>
      in s @ decimalDigits (n div 100) @ ''.'' @ [digitChar (n mod 100 div 10), digitChar (n mod 10)])"

section \<open>The turtle\<close>

text \<open>
  Modelled from the spec: the module \<^verbatim>\<open>./turtle\<close>, which declares the interface
  \<^verbatim>\<open>Turtle\<close> and the class \<^verbatim>\<open>SimpleTurtle\<close>, is not among the sources. The state of a
  turtle is its position, its heading in degrees, its pen colour, and the append-only
  sequence of the segments it has drawn, in drawing order.
\<close>

record SimpleTurtle =
  position :: Point
  heading :: real
  penColor :: Color
  path :: "Segment list"

text \<open>
  Modelled from the spec: \<^verbatim>\<open>forward(distance)\<close> moves the turtle \<open>distance\<close> units along
  its heading (\<open>0\<close> faces along the positive x axis, angles grow counter-clockwise) and
  appends one segment from the position before the move to the position after it, tagged
  with the pen colour at the time of the call. It does not reject any distance.
\<close>

definition forward :: "SimpleTurtle \<Rightarrow> real \<Rightarrow> SimpleTurtle" where
  "forward turtle distance =
     (let start = position turtle;
          radians = (heading turtle * pi) / 180;
          target = \<lparr>point_x = point_x start + distance * cos radians,
                    point_y = point_y start + distance * sin radians\<rparr>
      in turtle\<lparr>position := target,
                path := path turtle
                  @ [\<lparr>seg_start = start, seg_end = target, seg_color = penColor turtle\<rparr>]\<rparr>)"

text \<open>
  Modelled from the spec: \<^verbatim>\<open>turn(deltaDegrees)\<close> adds \<open>deltaDegrees\<close> to the heading, with
  no wrap-around, and draws nothing.
\<close>

definition turn :: "SimpleTurtle \<Rightarrow> real \<Rightarrow> SimpleTurtle" where
  "turn turtle deltaDegrees = turtle\<lparr>heading := heading turtle + deltaDegrees\<rparr>"

text \<open>
  Modelled from the spec: \<^verbatim>\<open>color(c)\<close> sets the pen colour of the segments drawn from
  now on; the recorded segments keep theirs.
\<close>

definition color :: "SimpleTurtle \<Rightarrow> Color \<Rightarrow> SimpleTurtle" where
  "color turtle c = turtle\<lparr>penColor := c\<rparr>"

text \<open>
  Modelled from the spec: \<^verbatim>\<open>getHeading()\<close> is the current heading in degrees and
  \<^verbatim>\<open>getPath()\<close> the segments drawn so far.
\<close>

definition getHeading :: "SimpleTurtle \<Rightarrow> real" where
  "getHeading turtle = heading turtle"

definition getPath :: "SimpleTurtle \<Rightarrow> Segment list" where
  "getPath turtle = path turtle"

section \<open>The functions of \<^verbatim>\<open>turtlesoup.ts\<close>\<close>

text \<open>
  \<^verbatim>\<open>
  export function drawPolygon(turtle: Turtle, sideLength: number, numSides: number): void {
      const anglePerTurn = 360 / numSides;
      for (let i = 0; i < numSides; i++) {
          turtle.forward(sideLength);
          turtle.turn(anglePerTurn);
      }
  }
  \<close>
  The loop is a recursion on its counter. There is no check of \<open>numSides\<close> and no
  \<^verbatim>\<open>throw\<close>. For \<open>numSides = 0\<close> the quotient is \<open>Infinity\<close> in the language and \<open>0\<close> in
  HOL; the loop takes the quotient as an argument, and with a count of \<open>0\<close> it never uses
  it.
\<close>

function drawPolygon_loop :: "real \<Rightarrow> real \<Rightarrow> real \<Rightarrow> nat \<Rightarrow> SimpleTurtle \<Rightarrow> SimpleTurtle" where
  "drawPolygon_loop sideLength numSides anglePerTurn i turtle =
     (if real i < numSides
      then drawPolygon_loop sideLength numSides anglePerTurn (i + 1)
             (turn (forward turtle sideLength) anglePerTurn)
      else turtle)"
  by pat_completeness auto
termination
  by (relation "measure (\<lambda>(sideLength, numSides, anglePerTurn, i, turtle). nat \<lceil>numSides\<rceil> - i)")
     (auto intro!: diff_less_mono2, linarith)

definition drawPolygon :: "SimpleTurtle \<Rightarrow> real \<Rightarrow> real \<Rightarrow> SimpleTurtle" where
  "drawPolygon turtle sideLength numSides =
     (let anglePerTurn = 360 / numSides
      in drawPolygon_loop sideLength numSides anglePerTurn 0 turtle)"

text \<open>
  \<^verbatim>\<open>
  export function calculateChordLength(radius: number, angleInDegrees: number): number {
      const halfAngle = angleInDegrees / 2;
      const radians = (halfAngle * Math.PI) / 180;
      return Math.round(2 * radius * Math.sin(radians) * 1000000) / 1000000;
  }
  \<close>
\<close>

definition calculateChordLength :: "real \<Rightarrow> real \<Rightarrow> real" where
  "calculateChordLength radius angleInDegrees =
     (let halfAngle = angleInDegrees / 2;
          radians = (halfAngle * pi) / 180
      in Math_round (2 * radius * sin radians * 1000000) / 1000000)"

text \<open>
  \<^verbatim>\<open>
  export function drawSpiralingCircle(turtle: Turtle, radius: number, iterations: number): void {
      const baseAngle = 360 / iterations;
      let currentRadius = radius;
      for (let i = 0; i < iterations; i++) {
          const chordLength = calculateChordLength(currentRadius, baseAngle);
          turtle.forward(chordLength);
          turtle.turn(baseAngle);
          // Gradually increase spiral radius
          currentRadius *= 1.05;
      }
  }
  \<close>
\<close>

function drawSpiralingCircle_loop ::
  "real \<Rightarrow> real \<Rightarrow> nat \<Rightarrow> real \<Rightarrow> SimpleTurtle \<Rightarrow> SimpleTurtle" where
  "drawSpiralingCircle_loop iterations baseAngle i currentRadius turtle =
     (if real i < iterations
      then (let chordLength = calculateChordLength currentRadius baseAngle
            in drawSpiralingCircle_loop iterations baseAngle (i + 1) (currentRadius * 1.05)
                 (turn (forward turtle chordLength) baseAngle))
      else turtle)"
  by pat_completeness auto
termination
  by (relation "measure (\<lambda>(iterations, baseAngle, i, currentRadius, turtle). nat \<lceil>iterations\<rceil> - i)")
     (auto intro!: diff_less_mono2, linarith)

definition drawSpiralingCircle :: "SimpleTurtle \<Rightarrow> real \<Rightarrow> real \<Rightarrow> SimpleTurtle" where
  "drawSpiralingCircle turtle radius iterations =
     (let baseAngle = 360 / iterations;
          currentRadius = radius
      in drawSpiralingCircle_loop iterations baseAngle 0 currentRadius turtle)"

text \<open>
  \<^verbatim>\<open>
  export function computeDistance(point1: Point, point2: Point): number {
      const xDiff = point1.x - point2.x;
      const yDiff = point1.y - point2.y;
      return Math.sqrt(xDiff * xDiff + yDiff * yDiff);
  }
  \<close>
\<close>

definition computeDistance :: "Point \<Rightarrow> Point \<Rightarrow> real" where
  "computeDistance point1 point2 =
     (let xDiff = point_x point1 - point_x point2;
          yDiff = point_y point1 - point_y point2
      in sqrt (xDiff * xDiff + yDiff * yDiff))"

text \<open>
  \<^verbatim>\<open>
  export function plotOptimalPath(turtle: Turtle, pointSequence: Point[]): string[] {
      const navigationInstructions: string[] = [];
      for (let i = 0; i < pointSequence.length - 1; i++) {
          const currentPoint = pointSequence[i];
          const nextPoint = pointSequence[i + 1];
          const deltaX = nextPoint.x - currentPoint.x;
          const deltaY = nextPoint.y - currentPoint.y;
          const travelAngle = Math.atan2(deltaY, deltaX) * 180 / Math.PI;
          const travelDistance = computeDistance(currentPoint, nextPoint);
          const turnAngle = travelAngle - turtle.getHeading();
          turtle.turn(turnAngle);
          turtle.forward(travelDistance);
          navigationInstructions.push(`Turn ${turnAngle.toFixed(2)} degrees`);
          navigationInstructions.push(`Move ${travelDistance.toFixed(2)} units`);
      }
      return navigationInstructions;
  }
  \<close>
  The model returns the turtle after the call together with the instructions. The bound
  \<^verbatim>\<open>pointSequence.length - 1\<close> is \<open>-1\<close> for the empty array, so it is an integer; under
  the loop condition both reads of the array are in range.
\<close>

function plotOptimalPath_loop ::
  "Point list \<Rightarrow> nat \<Rightarrow> SimpleTurtle \<Rightarrow> string list \<Rightarrow> SimpleTurtle \<times> string list" where
  "plotOptimalPath_loop pointSequence i turtle navigationInstructions =
     (if int i < int (length pointSequence) - 1
      then (let currentPoint = pointSequence ! i;
                nextPoint = pointSequence ! (i + 1);
                deltaX = point_x nextPoint - point_x currentPoint;
                deltaY = point_y nextPoint - point_y currentPoint;
                travelAngle = Math_atan2 deltaY deltaX * 180 / pi;
                travelDistance = computeDistance currentPoint nextPoint;
                turnAngle = travelAngle - getHeading turtle
            in plotOptimalPath_loop pointSequence (i + 1)
                 (forward (turn turtle turnAngle) travelDistance)
                 (navigationInstructions
                    @ [''Turn '' @ toFixed2 turnAngle @ '' degrees'']
                    @ [''Move '' @ toFixed2 travelDistance @ '' units'']))
      else (turtle, navigationInstructions))"
  by pat_completeness auto
termination
  by (relation "measure (\<lambda>(pointSequence, i, turtle, navigationInstructions). length pointSequence - i)")
     auto

definition plotOptimalPath :: "SimpleTurtle \<Rightarrow> Point list \<Rightarrow> SimpleTurtle \<times> string list" where
  "plotOptimalPath turtle pointSequence = plotOptimalPath_loop pointSequence 0 turtle []"

text \<open>
  \<^verbatim>\<open>
  export function createGeometricArtwork(turtle: Turtle): void {
      const colorPalette: Color[] = [
          "teal", "coral", "indigo", "gold",
          "crimson", "navy", "olive", "maroon"
      ];
      // Fractal-like geometric pattern
      for (let complexity = 1; complexity <= 5; complexity++) {
          turtle.color(colorPalette[(complexity * 2) % colorPalette.length]);
          for (let i = 3; i <= 8; i++) {
              drawPolygon(turtle, 50 / complexity, i);
              turtle.turn(360 / (i * complexity));
          }
      }
  }
  \<close>
  The index \<open>(complexity * 2) mod 8\<close> is below the length of the palette, so the read of
  the palette is in range.
\<close>

definition colorPalette :: "Color list" where
  "colorPalette =
     [''teal'', ''coral'', ''indigo'', ''gold'', ''crimson'', ''navy'', ''olive'', ''maroon'']"

function createGeometricArtwork_inner :: "nat \<Rightarrow> nat \<Rightarrow> SimpleTurtle \<Rightarrow> SimpleTurtle" where
  "createGeometricArtwork_inner complexity i turtle =
     (if i \<le> 8
      then createGeometricArtwork_inner complexity (i + 1)
             (turn (drawPolygon turtle (50 / real complexity) (real i))
                (360 / (real i * real complexity)))
      else turtle)"
  by pat_completeness auto
termination
  by (relation "measure (\<lambda>(complexity, i, turtle). 9 - i)") auto

function createGeometricArtwork_outer :: "nat \<Rightarrow> SimpleTurtle \<Rightarrow> SimpleTurtle" where
  "createGeometricArtwork_outer complexity turtle =
     (if complexity \<le> 5
      then createGeometricArtwork_outer (complexity + 1)
             (createGeometricArtwork_inner complexity 3
                (color turtle (colorPalette ! ((complexity * 2) mod length colorPalette))))
      else turtle)"
  by pat_completeness auto
termination
  by (relation "measure (\<lambda>(complexity, turtle). 6 - complexity)") auto

definition createGeometricArtwork :: "SimpleTurtle \<Rightarrow> SimpleTurtle" where
  "createGeometricArtwork turtle = createGeometricArtwork_outer 1 turtle"

declare drawPolygon_loop.simps [simp del]
declare drawSpiralingCircle_loop.simps [simp del]
declare plotOptimalPath_loop.simps [simp del]
declare createGeometricArtwork_inner.simps [simp del]
declare createGeometricArtwork_outer.simps [simp del]
declare decimalDigits.simps [simp del]

section \<open>Notions of the specification\<close>

text \<open>
  The segments a call has appended are those of the path after the call beyond the length
  of the path before it.
\<close>

definition newSegments :: "SimpleTurtle \<Rightarrow> SimpleTurtle \<Rightarrow> Segment list" where
  "newSegments before after = drop (length (path before)) (path after)"

text \<open>
  The specification describes the path planner pair by pair: for a consecutive pair
  \<open>(current, next)\<close> the bearing is \<open>atan2(deltaY, deltaX)\<close> in degrees, the turn is the
  bearing minus the heading the turtle has at that moment, taken as it is, and the turtle
  turns by it and then moves forward by the distance of the pair; the two instruction
  strings of the pair follow those already issued.
\<close>

definition bearing :: "Point \<Rightarrow> Point \<Rightarrow> real" where
  "bearing current nxt =
     Math_atan2 (point_y nxt - point_y current) (point_x nxt - point_x current) * 180 / pi"

definition travelLeg ::
  "Point \<times> Point \<Rightarrow> SimpleTurtle \<times> string list \<Rightarrow> SimpleTurtle \<times> string list" where
  "travelLeg leg state =
     (let turtle = fst state;
          turnAngle = bearing (fst leg) (snd leg) - heading turtle;
          distanceBetween = computeDistance (fst leg) (snd leg)
      in (forward (turn turtle turnAngle) distanceBetween,
          snd state @ [''Turn '' @ toFixed2 turnAngle @ '' degrees'',
                       ''Move '' @ toFixed2 distanceBetween @ '' units'']))"

text \<open>
  The errors the specification asks for, and the outcome of a call of the two generators
  that divide by a count. Neither body has a \<^verbatim>\<open>throw\<close> statement or a check of its
  arguments, and the turtle rejects nothing, so the outcome of a call is the turtle
  it returns.
\<close>

datatype error = InvalidInput | DivisionByZero

definition drawPolygon_outcome :: "SimpleTurtle \<Rightarrow> real \<Rightarrow> real \<Rightarrow> error + SimpleTurtle" where
  "drawPolygon_outcome turtle sideLength numSides = Inr (drawPolygon turtle sideLength numSides)"

definition drawSpiralingCircle_outcome ::
  "SimpleTurtle \<Rightarrow> real \<Rightarrow> real \<Rightarrow> error + SimpleTurtle" where
  "drawSpiralingCircle_outcome turtle radius iterations =
     Inr (drawSpiralingCircle turtle radius iterations)"

text \<open>
  \<open>strokes before after segs\<close>: the call that led from \<open>before\<close> to \<open>after\<close> appended
  exactly \<open>segs\<close>, all in the pen colour of \<open>before\<close>, and left the pen colour as it was.
\<close>

definition strokes :: "SimpleTurtle \<Rightarrow> SimpleTurtle \<Rightarrow> Segment list \<Rightarrow> bool" where
  "strokes before after segs \<longleftrightarrow>
     path after = path before @ segs \<and> penColor after = penColor before
     \<and> map seg_color segs = replicate (length segs) (penColor before)"

text \<open>A turtle at the origin that has drawn nothing, for concrete instances.\<close>

definition turtleAtOrigin :: SimpleTurtle where
  "turtleAtOrigin =
     \<lparr>position = \<lparr>point_x = 0, point_y = 0\<rparr>, heading = 0, penColor = ''black'', path = []\<rparr>"

section \<open>Double-precision numbers\<close>

text \<open>
  A Number of the language: a finite binary64 value, an infinity, or NaN. The two zeros are
  identified: they compare equal, and nothing below divides by a negative zero.
\<close>

datatype float64 = Finite real | PosInf | NegInf | NaN

text \<open>
  \<open>rne\<close> rounds a real to the nearest integer, a tie to the even one. \<open>binade x\<close> is the
  binary exponent of \<open>x\<close>, and \<open>-1022\<close> for the subnormal values below \<open>2\<^sup>-\<^sup>1\<^sup>0\<^sup>2\<^sup>2\<close>.
  \<open>fl x\<close> is the binary64 value nearest to \<open>x\<close>: \<open>x\<close> is rounded to a multiple of the quantum
  \<open>2\<^sup>e\<^sup>-\<^sup>5\<^sup>2\<close> of its binade (53 significant bits, \<open>2\<^sup>-\<^sup>1\<^sup>0\<^sup>7\<^sup>4\<close> for a subnormal), and a result
  of magnitude \<open>2\<^sup>1\<^sup>0\<^sup>2\<^sup>4\<close> or more is an infinity. A decimal literal of the source denotes
  \<open>fl\<close> of its value; an integer literal below \<open>2\<^sup>5\<^sup>3\<close> denotes itself.
\<close>

definition rne :: "real \<Rightarrow> int" where
  "rne y =
     (let f = \<lfloor>y\<rfloor>; d = y - of_int f
      in if d < 1 / 2 then f else if 1 / 2 < d then f + 1 else if even f then f else f + 1)"

definition binade :: "real \<Rightarrow> int" where
  "binade x = max \<lfloor>log 2 \<bar>x\<bar>\<rfloor> (- 1022)"

definition fl :: "real \<Rightarrow> float64" where
  "fl x =
     (if x = 0 then Finite 0
      else let q = 2 powr of_int (binade x - 52);
               v = of_int (rne (x / q)) * q
           in if 2 ^ 1024 \<le> \<bar>v\<bar> then (if 0 < x then PosInf else NegInf) else Finite v)"

text \<open>
  The arithmetic operators of the language: the exact result, rounded; NaN for an
  indeterminate form and for a NaN operand; an infinity for an infinite operand and for a
  division of a non-zero number by zero.
\<close>

fun f64_neg :: "float64 \<Rightarrow> float64" where
  "f64_neg (Finite a) = Finite (- a)"
| "f64_neg PosInf = NegInf"
| "f64_neg NegInf = PosInf"
| "f64_neg NaN = NaN"

fun f64_add :: "float64 \<Rightarrow> float64 \<Rightarrow> float64" where
  "f64_add (Finite a) (Finite b) = fl (a + b)"
| "f64_add NaN _ = NaN"
| "f64_add _ NaN = NaN"
| "f64_add PosInf NegInf = NaN"
| "f64_add NegInf PosInf = NaN"
| "f64_add PosInf _ = PosInf"
| "f64_add _ PosInf = PosInf"
| "f64_add NegInf _ = NegInf"
| "f64_add _ NegInf = NegInf"

definition f64_sub :: "float64 \<Rightarrow> float64 \<Rightarrow> float64" where
  "f64_sub a b = f64_add a (f64_neg b)"

definition signedInf :: "bool \<Rightarrow> float64" where
  "signedInf positive = (if positive then PosInf else NegInf)"

fun f64_mul :: "float64 \<Rightarrow> float64 \<Rightarrow> float64" where
  "f64_mul (Finite a) (Finite b) = fl (a * b)"
| "f64_mul NaN _ = NaN"
| "f64_mul _ NaN = NaN"
| "f64_mul (Finite a) PosInf = (if a = 0 then NaN else signedInf (0 < a))"
| "f64_mul (Finite a) NegInf = (if a = 0 then NaN else signedInf (a < 0))"
| "f64_mul PosInf (Finite b) = (if b = 0 then NaN else signedInf (0 < b))"
| "f64_mul NegInf (Finite b) = (if b = 0 then NaN else signedInf (b < 0))"
| "f64_mul PosInf PosInf = PosInf"
| "f64_mul NegInf NegInf = PosInf"
| "f64_mul PosInf NegInf = NegInf"
| "f64_mul NegInf PosInf = NegInf"

fun f64_div :: "float64 \<Rightarrow> float64 \<Rightarrow> float64" where
  "f64_div (Finite a) (Finite b) =
     (if b = 0 then (if a = 0 then NaN else signedInf (0 < a)) else fl (a / b))"
| "f64_div NaN _ = NaN"
| "f64_div _ NaN = NaN"
| "f64_div (Finite a) PosInf = Finite 0"
| "f64_div (Finite a) NegInf = Finite 0"
| "f64_div PosInf (Finite b) = signedInf (0 \<le> b)"
| "f64_div NegInf (Finite b) = signedInf (b < 0)"
| "f64_div PosInf _ = NaN"
| "f64_div NegInf _ = NaN"

text \<open>
  \<^verbatim>\<open>Math.sqrt\<close> is the correctly rounded square root of IEEE 754. The language leaves the
  precision of \<^verbatim>\<open>Math.sin\<close> and \<^verbatim>\<open>Math.cos\<close> to the implementation; the model takes the
  correctly rounded value, and what is proved below uses of it only that the sine of \<open>0\<close>
  is \<open>0\<close> and that a sine lies between \<open>-1\<close> and \<open>1\<close>. \<^verbatim>\<open>Math.PI\<close> is the binary64 value
  nearest to \<open>\<pi>\<close>. \<^verbatim>\<open>Math.round\<close> is exact: the nearest integer of a binary64 value is
  one.
\<close>

fun f64_sqrt :: "float64 \<Rightarrow> float64" where
  "f64_sqrt (Finite a) = (if a < 0 then NaN else fl (sqrt a))"
| "f64_sqrt PosInf = PosInf"
| "f64_sqrt NegInf = NaN"
| "f64_sqrt NaN = NaN"

fun f64_sin :: "float64 \<Rightarrow> float64" where
  "f64_sin (Finite a) = fl (sin a)"
| "f64_sin _ = NaN"

fun f64_cos :: "float64 \<Rightarrow> float64" where
  "f64_cos (Finite a) = fl (cos a)"
| "f64_cos _ = NaN"

definition Math_PI_f64 :: float64 where
  "Math_PI_f64 = fl pi"

fun Math_round_f64 :: "float64 \<Rightarrow> float64" where
  "Math_round_f64 (Finite a) = Finite (of_int \<lfloor>a + 1 / 2\<rfloor>)"
| "Math_round_f64 v = v"

text \<open>
  The comparisons \<^verbatim>\<open>==\<close> and \<^verbatim>\<open><=\<close> of two Numbers: false whenever an operand is NaN.
\<close>

fun f64_eq :: "float64 \<Rightarrow> float64 \<Rightarrow> bool" where
  "f64_eq NaN _ = False"
| "f64_eq _ NaN = False"
| "f64_eq a b = (a = b)"

fun f64_le :: "float64 \<Rightarrow> float64 \<Rightarrow> bool" where
  "f64_le (Finite a) (Finite b) = (a \<le> b)"
| "f64_le NaN _ = False"
| "f64_le _ NaN = False"
| "f64_le NegInf _ = True"
| "f64_le _ PosInf = True"
| "f64_le _ _ = False"

section \<open>The turtle and the numeric functions over doubles\<close>

text \<open>
  Points, segments and the turtle state as above, with binary64 coordinates and heading.
\<close>

record Point_f64 =
  x64 :: float64
  y64 :: float64

record Segment_f64 =
  start64 :: Point_f64
  end64 :: Point_f64
  color64 :: Color

text \<open>
  Modelled from the spec: the state of the turtle of the absent module \<^verbatim>\<open>./turtle\<close>, as
  \<open>SimpleTurtle\<close> above.
\<close>

record SimpleTurtle_f64 =
  position64 :: Point_f64
  heading64 :: float64
  penColor64 :: Color
  path64 :: "Segment_f64 list"

text \<open>
  Modelled from the spec: \<^verbatim>\<open>forward(distance)\<close> as \<open>forward\<close> above, every operation rounded.
\<close>

definition forward_f64 :: "SimpleTurtle_f64 \<Rightarrow> float64 \<Rightarrow> SimpleTurtle_f64" where
  "forward_f64 turtle distance =
     (let start = position64 turtle;
          radians = f64_div (f64_mul (heading64 turtle) Math_PI_f64) (Finite 180);
          target = \<lparr>x64 = f64_add (x64 start) (f64_mul distance (f64_cos radians)),
                    y64 = f64_add (y64 start) (f64_mul distance (f64_sin radians))\<rparr>
      in turtle\<lparr>position64 := target,
                path64 := path64 turtle
                  @ [\<lparr>start64 = start, end64 = target, color64 = penColor64 turtle\<rparr>]\<rparr>)"

text \<open>
  Modelled from the spec: \<^verbatim>\<open>turn(deltaDegrees)\<close> adds \<open>deltaDegrees\<close> to the heading, one
  rounded addition, with no wrap-around.
\<close>

definition turn_f64 :: "SimpleTurtle_f64 \<Rightarrow> float64 \<Rightarrow> SimpleTurtle_f64" where
  "turn_f64 turtle deltaDegrees = turtle\<lparr>heading64 := f64_add (heading64 turtle) deltaDegrees\<rparr>"



definition calculateChordLength_f64 :: "float64 \<Rightarrow> float64 \<Rightarrow> float64" where
  "calculateChordLength_f64 radius angleInDegrees =
     (let halfAngle = f64_div angleInDegrees (Finite 2);
          radians = f64_div (f64_mul halfAngle Math_PI_f64) (Finite 180)
      in f64_div
           (Math_round_f64
              (f64_mul (f64_mul (f64_mul (Finite 2) radius) (f64_sin radians)) (Finite 1000000)))
           (Finite 1000000))"

function drawSpiralingCircle_f64_loop ::
  "real \<Rightarrow> float64 \<Rightarrow> nat \<Rightarrow> float64 \<Rightarrow> SimpleTurtle_f64 \<Rightarrow> SimpleTurtle_f64" where
  "drawSpiralingCircle_f64_loop iterations baseAngle i currentRadius turtle =
     (if real i < iterations
      then (let chordLength = calculateChordLength_f64 currentRadius baseAngle
            in drawSpiralingCircle_f64_loop iterations baseAngle (i + 1)
                 (f64_mul currentRadius (fl 1.05))
                 (turn_f64 (forward_f64 turtle chordLength) baseAngle))
      else turtle)"
  by pat_completeness auto
termination
  by (relation "measure (\<lambda>(iterations, baseAngle, i, currentRadius, turtle). nat \<lceil>iterations\<rceil> - i)")
     (auto intro!: diff_less_mono2, linarith)

definition drawSpiralingCircle_f64 :: "SimpleTurtle_f64 \<Rightarrow> float64 \<Rightarrow> real \<Rightarrow> SimpleTurtle_f64" where
  "drawSpiralingCircle_f64 turtle radius iterations =
     (let baseAngle = f64_div (Finite 360) (Finite iterations);
          currentRadius = radius
      in drawSpiralingCircle_f64_loop iterations baseAngle 0 currentRadius turtle)"

definition computeDistance_f64 :: "Point_f64 \<Rightarrow> Point_f64 \<Rightarrow> float64" where
  "computeDistance_f64 point1 point2 =
     (let xDiff = f64_sub (x64 point1) (x64 point2);
          yDiff = f64_sub (y64 point1) (y64 point2)
      in f64_sqrt (f64_add (f64_mul xDiff xDiff) (f64_mul yDiff yDiff)))"

declare drawSpiralingCircle_f64_loop.simps [simp del]




text \<open>
  The segment one \<^verbatim>\<open>forward(distance)\<close> records; two headings that agree modulo \<open>360\<close>;
  a Number that is not negative and not NaN; and a turtle at the origin that has drawn
  nothing, for concrete instances.
\<close>

definition stroke64 :: "SimpleTurtle_f64 \<Rightarrow> float64 \<Rightarrow> Segment_f64" where
  "stroke64 turtle distance =
     \<lparr>start64 = position64 turtle, end64 = position64 (forward_f64 turtle distance),
      color64 = penColor64 turtle\<rparr>"

definition headingsAgreeMod360 :: "float64 \<Rightarrow> float64 \<Rightarrow> bool" where
  "headingsAgreeMod360 before after =
     (case (before, after) of
        (Finite a, Finite b) \<Rightarrow> (b - a) / 360 = of_int \<lfloor>(b - a) / 360\<rfloor>
      | _ \<Rightarrow> False)"

definition nonnegOrInf :: "float64 \<Rightarrow> bool" where
  "nonnegOrInf u = (case u of Finite v \<Rightarrow> 0 \<le> v | PosInf \<Rightarrow> True | _ \<Rightarrow> False)"

definition turtle64AtOrigin :: SimpleTurtle_f64 where
  "turtle64AtOrigin =
     \<lparr>position64 = \<lparr>x64 = Finite 0, y64 = Finite 0\<rparr>, heading64 = Finite 0,
      penColor64 = ''black'', path64 = []\<rparr>"

section \<open>Turtle primitives and the polygon loop\<close>

lemma forward_fields [simp]:
  "heading (forward t d) = heading t"
  "penColor (forward t d) = penColor t"
  "path (forward t d) = path t @ [\<lparr>seg_start = position t,
       seg_end = position (forward t d), seg_color = penColor t\<rparr>]"
  by (simp_all add: forward_def Let_def)

lemma turn_fields [simp]:
  "heading (turn t a) = heading t + a"
  "penColor (turn t a) = penColor t"
  "path (turn t a) = path t"
  "position (turn t a) = position t"
  by (simp_all add: turn_def)

lemma color_fields [simp]:
  "heading (color t c) = heading t"
  "penColor (color t c) = c"
  "path (color t c) = path t"
  "position (color t c) = position t"
  by (simp_all add: color_def)

lemma strokes_refl: "strokes t t []"
  by (simp add: strokes_def)

lemma strokes_turn: "strokes t u segs \<Longrightarrow> strokes t (turn u a) segs"
  by (simp add: strokes_def)

lemma strokes_forward:
  "strokes t u segs \<Longrightarrow>
   strokes t (forward u d) (segs @ [\<lparr>seg_start = position u, seg_end = position (forward u d), seg_color = penColor u\<rparr>])"
  by (simp add: strokes_def replicate_append_same)

lemma strokes_trans:
  "strokes t u segs \<Longrightarrow> strokes u v segs' \<Longrightarrow> strokes t v (segs @ segs')"
  by (simp add: strokes_def replicate_add)

lemma strokes_newSegments: "strokes t u segs \<Longrightarrow> newSegments t u = segs"
  by (simp add: strokes_def newSegments_def)

lemma drawPolygon_loop_unroll:
  "i \<le> n \<Longrightarrow> k = n - i \<Longrightarrow>
   drawPolygon_loop s (real n) ang i t = ((\<lambda>u. turn (forward u s) ang) ^^ k) t"
proof (induction k arbitrary: i t)
  case 0
  then show ?case by (subst drawPolygon_loop.simps) simp
next
  case (Suc k)
  then have "i < n" and "i + 1 \<le> n" and "k = n - (i + 1)" by simp_all
  with Suc.IH [of "i + 1" "turn (forward t s) ang"]
    funpow_swap1 [of "\<lambda>u. turn (forward u s) ang" k t]
  show ?case
    by (subst drawPolygon_loop.simps) simp
qed

lemma drawPolygon_nat:
  "drawPolygon t s (real n) = ((\<lambda>u. turn (forward u s) (360 / real n)) ^^ n) t"
  using drawPolygon_loop_unroll [of 0 n n s "360 / real n" t]
  by (simp add: drawPolygon_def)

lemma repeat_strokes:
  "\<exists>segs. strokes t (((\<lambda>u. turn (forward u s) ang) ^^ k) t) segs \<and> length segs = k"
proof (induction k)
  case 0
  show ?case by (simp add: strokes_refl)
next
  case (Suc k)
  let ?u = "((\<lambda>u. turn (forward u s) ang) ^^ k) t"
  from Suc obtain segs where segs: "strokes t ?u segs" "length segs = k" by blast
  let ?g = "\<lparr>seg_start = position ?u, seg_end = position (forward ?u s), seg_color = penColor ?u\<rparr>"
  have "strokes t (turn (forward ?u s) ang) (segs @ [?g])"
    using segs(1) by (intro strokes_turn strokes_forward)
  then show ?case
    using segs(2) by auto
qed

lemma drawPolygon_strokes:
  "\<exists>segs. strokes t (drawPolygon t s (real n)) segs \<and> length segs = n"
  unfolding drawPolygon_nat by (rule repeat_strokes)

lemma drawPolygon_zero: "numSides \<le> 0 \<Longrightarrow> drawPolygon_loop s numSides ang 0 t = t"
  by (subst drawPolygon_loop.simps) simp

section \<open>The path planner\<close>

lemma drawSpiralingCircle_zero:
  "iterations \<le> 0 \<Longrightarrow> drawSpiralingCircle_loop iterations ang 0 r t = t"
  by (subst drawSpiralingCircle_loop.simps) simp

lemma plot_loop_step:
  "int i < int (length ps) - 1 \<Longrightarrow>
   plotOptimalPath_loop ps i t ins
     = plotOptimalPath_loop ps (i + 1) (fst (travelLeg (ps ! i, ps ! (i + 1)) (t, ins)))
         (snd (travelLeg (ps ! i, ps ! (i + 1)) (t, ins)))"
  by (subst plotOptimalPath_loop.simps)
     (simp add: travelLeg_def bearing_def getHeading_def Let_def)

lemma plot_loop_exit:
  "\<not> int i < int (length ps) - 1 \<Longrightarrow> plotOptimalPath_loop ps i t ins = (t, ins)"
  by (subst plotOptimalPath_loop.simps) simp

lemma plot_loop_unroll:
  "k = length ps - i \<Longrightarrow>
   plotOptimalPath_loop ps i t ins = fold travelLeg (drop i (zip ps (tl ps))) (t, ins)"
proof (induction k arbitrary: i t ins)
  case 0
  then have "\<not> int i < int (length ps) - 1" by simp
  moreover from 0 have "drop i (zip ps (tl ps)) = []" by simp
  ultimately show ?case by (simp add: plot_loop_exit)
next
  case (Suc k)
  show ?case
  proof (cases "int i < int (length ps) - 1")
    case True
    let ?st = "travelLeg (ps ! i, ps ! (i + 1)) (t, ins)"
    from True have i: "i + 1 < length ps" by simp
    then have "i < length (zip ps (tl ps))" by simp
    then have "drop i (zip ps (tl ps)) = (zip ps (tl ps)) ! i # drop (Suc i) (zip ps (tl ps))"
      by (rule Cons_nth_drop_Suc [symmetric])
    also have "(zip ps (tl ps)) ! i = (ps ! i, ps ! (i + 1))"
      using i by (simp add: nth_tl)
    finally have d: "drop i (zip ps (tl ps)) = (ps ! i, ps ! (i + 1)) # drop (i + 1) (zip ps (tl ps))"
      by simp
    from Suc.prems have k: "k = length ps - (i + 1)" by simp
    have "plotOptimalPath_loop ps i t ins = plotOptimalPath_loop ps (i + 1) (fst ?st) (snd ?st)"
      using True by (rule plot_loop_step)
    also have "\<dots> = fold travelLeg (drop (i + 1) (zip ps (tl ps))) (fst ?st, snd ?st)"
      using k by (rule Suc.IH)
    also have "\<dots> = fold travelLeg (drop i (zip ps (tl ps))) (t, ins)"
      by (simp only: d fold_simps prod.collapse)
    finally show ?thesis .
  next
    case False
    then have "drop i (zip ps (tl ps)) = []" by simp
    with False show ?thesis by (simp add: plot_loop_exit)
  qed
qed

lemma plotOptimalPath_legs:
  "plotOptimalPath t ps = fold travelLeg (zip ps (tl ps)) (t, [])"
  using plot_loop_unroll [of "length ps" ps 0 t "[]"] by (simp add: plotOptimalPath_def)

lemma travelLeg_count:
  "length (snd (fold travelLeg legs st)) = length (snd st) + 2 * length legs"
  by (induction legs arbitrary: st) (simp_all add: travelLeg_def Let_def)

lemma plotOptimalPath_short:
  "plotOptimalPath t [] = (t, [])" "plotOptimalPath t [p] = (t, [])"
  by (simp_all add: plotOptimalPath_legs)

lemma toFixed2_five: "toFixed2 5 = ''5.00''"
  by (simp add: toFixed2_def digitChar_def decimalDigits.simps)

lemma distance_3_4:
  "computeDistance \<lparr>point_x = 0, point_y = 0\<rparr> \<lparr>point_x = 3, point_y = 4\<rparr> = 5"
proof -
  have "sqrt 25 = sqrt (5\<^sup>2)" by simp
  also have "\<dots> = \<bar>5\<bar>" by (rule real_sqrt_abs)
  finally show ?thesis by (simp add: computeDistance_def)
qed

lemma plotOptimalPath_3_4:
  "plotOptimalPath t [\<lparr>point_x = 0, point_y = 0\<rparr>, \<lparr>point_x = 3, point_y = 4\<rparr>]
     = (forward (turn t (Math_atan2 4 3 * 180 / pi - heading t)) 5,
        [''Turn '' @ toFixed2 (Math_atan2 4 3 * 180 / pi - heading t) @ '' degrees'',
         ''Move 5.00 units''])"
  by (simp add: plotOptimalPath_legs travelLeg_def bearing_def distance_3_4 toFixed2_five Let_def)

section \<open>The artwork\<close>

lemma inner_loop_unroll:
  "i \<le> 9 \<Longrightarrow> k = 9 - i \<Longrightarrow>
   createGeometricArtwork_inner c i t
     = fold (\<lambda>j u. turn (drawPolygon u (50 / real c) (real j)) (360 / (real j * real c))) [i..<9] t"
proof (induction k arbitrary: i t)
  case 0
  then show ?case by (subst createGeometricArtwork_inner.simps) simp
next
  case (Suc k)
  let ?u = "turn (drawPolygon t (50 / real c) (real i)) (360 / (real i * real c))"
  from Suc.prems have lt: "i \<le> 8" and le: "i + 1 \<le> 9" and k: "k = 9 - (i + 1)" by simp_all
  have "createGeometricArtwork_inner c i t = createGeometricArtwork_inner c (i + 1) ?u"
    using lt by (subst createGeometricArtwork_inner.simps) simp
  also have "\<dots> = fold (\<lambda>j u. turn (drawPolygon u (50 / real c) (real j)) (360 / (real j * real c)))
                       [i + 1..<9] ?u"
    using le k by (rule Suc.IH)
  also have "\<dots> = fold (\<lambda>j u. turn (drawPolygon u (50 / real c) (real j)) (360 / (real j * real c)))
                       [i..<9] t"
    using lt by (simp add: upt_conv_Cons)
  finally show ?case .
qed

lemma outer_loop_unroll:
  "c \<le> 6 \<Longrightarrow> k = 6 - c \<Longrightarrow>
   createGeometricArtwork_outer c t
     = fold (\<lambda>j u. createGeometricArtwork_inner j 3
                      (color u (colorPalette ! ((j * 2) mod length colorPalette)))) [c..<6] t"
proof (induction k arbitrary: c t)
  case 0
  then show ?case by (subst createGeometricArtwork_outer.simps) simp
next
  case (Suc k)
  let ?u = "createGeometricArtwork_inner c 3 (color t (colorPalette ! ((c * 2) mod length colorPalette)))"
  from Suc.prems have lt: "c \<le> 5" and le: "c + 1 \<le> 6" and k: "k = 6 - (c + 1)" by simp_all
  have "createGeometricArtwork_outer c t = createGeometricArtwork_outer (c + 1) ?u"
    using lt by (subst createGeometricArtwork_outer.simps) simp
  also have "\<dots> = fold (\<lambda>j u. createGeometricArtwork_inner j 3
                      (color u (colorPalette ! ((j * 2) mod length colorPalette)))) [c + 1..<6] ?u"
    using le k by (rule Suc.IH)
  also have "\<dots> = fold (\<lambda>j u. createGeometricArtwork_inner j 3
                      (color u (colorPalette ! ((j * 2) mod length colorPalette)))) [c..<6] t"
    using lt by (simp add: upt_conv_Cons)
  finally show ?case .
qed

lemma one_to_five: "[1..<6] = [1, 2, 3, 4, 5]"
  by (simp add: upt_conv_Cons)

lemma three_to_eight: "[3..<9] = [3, 4, 5, 6, 7, 8]"
  by (simp add: upt_conv_Cons)

lemma palette_indices:
  "map (\<lambda>complexity. (complexity * 2) mod length colorPalette) [1..<6] = [2, 4, 6, 0, 2]"
  unfolding one_to_five by (simp add: colorPalette_def)

lemma palette_colours:
  "map (\<lambda>complexity. colorPalette ! ((complexity * 2) mod length colorPalette)) [1..<6]
     = [''indigo'', ''crimson'', ''olive'', ''teal'', ''indigo'']"
  unfolding one_to_five by (simp add: colorPalette_def)

lemma artwork_colour_steps:
  "createGeometricArtwork t
     = fold (\<lambda>(complexity, c) u. createGeometricArtwork_inner complexity 3 (color u c))
         [(1, ''indigo''), (2, ''crimson''), (3, ''olive''), (4, ''teal''), (5, ''indigo'')] t"
proof -
  have "createGeometricArtwork t
          = fold (\<lambda>j u. createGeometricArtwork_inner j 3
                      (color u (colorPalette ! ((j * 2) mod length colorPalette)))) [1..<6] t"
    unfolding createGeometricArtwork_def by (rule outer_loop_unroll) simp_all
  also have "\<dots> = fold (\<lambda>(complexity, c) u. createGeometricArtwork_inner complexity 3 (color u c))
         [(1, ''indigo''), (2, ''crimson''), (3, ''olive''), (4, ''teal''), (5, ''indigo'')] t"
    unfolding one_to_five by (simp add: colorPalette_def)
  finally show ?thesis .
qed

lemma polygons_strokes:
  "\<exists>segs. strokes t (fold (\<lambda>j u. turn (drawPolygon u (s j) (real j)) (a j)) js t) segs
     \<and> length segs = sum_list js"
proof (induction js arbitrary: t)
  case Nil
  show ?case by (simp add: strokes_refl)
next
  case (Cons j js)
  let ?u = "turn (drawPolygon t (s j) (real j)) (a j)"
  from drawPolygon_strokes [of t "s j" j] obtain segs1 where
    s1: "strokes t (drawPolygon t (s j) (real j)) segs1" "length segs1 = j" by blast
  from Cons [of ?u] obtain segs2 where
    s2: "strokes ?u (fold (\<lambda>j u. turn (drawPolygon u (s j) (real j)) (a j)) js ?u) segs2"
        "length segs2 = sum_list js" by blast
  from s1(1) have "strokes t ?u segs1" by (rule strokes_turn)
  then have "strokes t (fold (\<lambda>j u. turn (drawPolygon u (s j) (real j)) (a j)) js ?u) (segs1 @ segs2)"
    using s2(1) by (rule strokes_trans)
  with s1(2) s2(2) show ?case by auto
qed

lemma inner_strokes:
  "\<exists>segs. strokes t (createGeometricArtwork_inner c 3 t) segs \<and> length segs = 33"
proof -
  have eq: "createGeometricArtwork_inner c 3 t
      = fold (\<lambda>j u. turn (drawPolygon u (50 / real c) (real j)) (360 / (real j * real c))) [3..<9] t"
    by (rule inner_loop_unroll) simp_all
  have "sum_list [3..<9] = (33::nat)" unfolding three_to_eight by simp
  with polygons_strokes [of t "\<lambda>j. 50 / real c" "\<lambda>j. 360 / (real j * real c)" "[3..<9]"]
  show ?thesis unfolding eq by simp
qed

lemma layer_strokes:
  "\<exists>segs. path (createGeometricArtwork_inner c 3 (color t col)) = path t @ segs
     \<and> map seg_color segs = replicate 33 col"
  using inner_strokes [of "color t col" c] by (auto simp: strokes_def)

lemma layers_strokes:
  "\<exists>segs. path (fold (\<lambda>(complexity, c) u. createGeometricArtwork_inner complexity 3 (color u c))
                    layers t) = path t @ segs
     \<and> map seg_color segs = concat (map (\<lambda>(complexity, c). replicate 33 c) layers)"
proof (induction layers arbitrary: t)
  case Nil
  show ?case by simp
next
  case (Cons layer layers)
  obtain complexity c where layer: "layer = (complexity, c)" by (cases layer)
  let ?u = "createGeometricArtwork_inner complexity 3 (color t c)"
  from layer_strokes [of complexity t c] obtain s1 where
    s1: "path ?u = path t @ s1" "map seg_color s1 = replicate 33 c" by blast
  from Cons [of ?u] obtain s2 where
    s2: "path (fold (\<lambda>(complexity, c) u. createGeometricArtwork_inner complexity 3 (color u c))
                 layers ?u) = path ?u @ s2"
        "map seg_color s2 = concat (map (\<lambda>(complexity, c). replicate 33 c) layers)" by blast
  show ?case
    by (rule exI [of _ "s1 @ s2"]) (simp add: layer s1 s2)
qed

lemma artwork_segment_colours:
  "map seg_color (newSegments t (createGeometricArtwork t))
     = replicate 33 ''indigo'' @ replicate 33 ''crimson'' @ replicate 33 ''olive''
       @ replicate 33 ''teal'' @ replicate 33 ''indigo''"
proof -
  from layers_strokes [of "[(1, ''indigo''), (2, ''crimson''), (3, ''olive''), (4, ''teal''), (5, ''indigo'')]" t]
  obtain segs where
    "path (createGeometricArtwork t) = path t @ segs"
    "map seg_color segs = replicate 33 ''indigo'' @ replicate 33 ''crimson'' @ replicate 33 ''olive''
       @ replicate 33 ''teal'' @ replicate 33 ''indigo''"
    unfolding artwork_colour_steps [symmetric] by auto
  then show ?thesis by (simp add: newSegments_def)
qed

section \<open>A count of zero\<close>

lemma drawPolygon_no_sides: "drawPolygon t s 0 = t"
  by (simp add: drawPolygon_def drawPolygon_zero)

lemma drawSpiralingCircle_no_iterations: "drawSpiralingCircle t r 0 = t"
  by (simp add: drawSpiralingCircle_def drawSpiralingCircle_zero)

section \<open>Rounding to binary64\<close>

lemma rne_eqI: "\<bar>y - of_int m\<bar> < 1 / 2 \<Longrightarrow> rne y = m"
proof -
  assume a: "\<bar>y - of_int m\<bar> < 1 / 2"
  show ?thesis
  proof (cases "of_int m \<le> y")
    case True
    with a have "\<lfloor>y\<rfloor> = m" by linarith
    with a True show ?thesis by (simp add: rne_def Let_def)
  next
    case False
    with a have f: "\<lfloor>y\<rfloor> = m - 1" by linarith
    from a False have "1 / 2 < y - of_int (m - 1)" by simp
    with f show ?thesis by (simp add: rne_def Let_def)
  qed
qed

lemma rne_of_int [simp]: "rne (of_int m) = m"
  by (rule rne_eqI) simp

lemma rne_le: "y \<le> of_int N \<Longrightarrow> rne y \<le> N"
proof -
  assume "y \<le> of_int N"
  then have f: "\<lfloor>y\<rfloor> \<le> N" by (simp add: floor_le_iff)
  show ?thesis
  proof (cases "\<lfloor>y\<rfloor> = N")
    case True
    with \<open>y \<le> of_int N\<close> have "y - of_int \<lfloor>y\<rfloor> \<le> 0" by simp
    then show ?thesis using True by (simp add: rne_def Let_def)
  next
    case False
    with f have "\<lfloor>y\<rfloor> + 1 \<le> N" by simp
    then show ?thesis by (simp add: rne_def Let_def)
  qed
qed

lemma rne_ge: "of_int N \<le> y \<Longrightarrow> N \<le> rne y"
proof -
  assume "of_int N \<le> y"
  then have "N \<le> \<lfloor>y\<rfloor>" by (simp add: le_floor_iff)
  then show ?thesis by (simp add: rne_def Let_def)
qed

lemma floor_neg_nonint:
  assumes "y \<notin> \<int>"
  shows "\<lfloor>- y\<rfloor> = - \<lfloor>y\<rfloor> - 1" and "0 < y - of_int \<lfloor>y\<rfloor>"
proof -
  have "of_int \<lfloor>y\<rfloor> \<noteq> y" using assms by (metis Ints_of_int)
  moreover have "of_int \<lfloor>y\<rfloor> \<le> y" by simp
  ultimately have lt: "of_int \<lfloor>y\<rfloor> < y" by (rule order.not_eq_order_implies_strict)
  then show "0 < y - of_int \<lfloor>y\<rfloor>" by simp
  have "y < of_int \<lfloor>y\<rfloor> + 1" by linarith
  with lt show "\<lfloor>- y\<rfloor> = - \<lfloor>y\<rfloor> - 1"
    by (intro floor_unique) simp_all
qed

lemma rne_neg: "rne (- y) = - rne y"
proof (cases "y \<in> \<int>")
  case True
  then obtain k where k: "y = of_int k" by (auto elim: Ints_cases)
  have "rne (of_int (- k)) = - rne (of_int k)" by (simp only: rne_of_int)
  then show ?thesis by (simp add: k)
next
  case False
  let ?f = "\<lfloor>y\<rfloor>"
  let ?d = "y - of_int ?f"
  note c = floor_neg_nonint(1) [OF False]
  have pos: "0 < ?d" by (rule floor_neg_nonint(2) [OF False])
  have d: "- y - of_int (- ?f - 1) = 1 - ?d" by simp
  consider "?d < 1 / 2" | "1 / 2 < ?d" | "?d = 1 / 2" by linarith
  then show ?thesis
  proof cases
    case 1
    then have "\<not> 1 - ?d < 1 / 2" "1 / 2 < 1 - ?d" by simp_all
    with 1 show ?thesis unfolding rne_def Let_def c d by simp
  next
    case 2
    then have "1 - ?d < 1 / 2" "\<not> ?d < 1 / 2" by simp_all
    with 2 show ?thesis unfolding rne_def Let_def c d by simp
  next
    case 3
    then have "\<not> 1 - ?d < 1 / 2" "\<not> 1 / 2 < 1 - ?d" "\<not> ?d < 1 / 2" "\<not> 1 / 2 < ?d"
      by simp_all
    then show ?thesis unfolding rne_def Let_def c d by simp
  qed
qed

lemma binade_neg [simp]: "binade (- x) = binade x"
  by (simp add: binade_def)

lemma fl_zero [simp]: "fl 0 = Finite 0"
  by (simp add: fl_def)

lemma fl_neg: "fl (- x) = f64_neg (fl x)"
proof (cases "x = 0")
  case True
  then show ?thesis by simp
next
  case False
  let ?q = "(2::real) powr of_int (binade x - 52)"
  have "rne (- x / ?q) = - rne (x / ?q)"
    using rne_neg [of "x / ?q"] by simp
  then show ?thesis
    using False by (simp add: fl_def Let_def)
qed

lemma binade_eq:
  assumes "2 powr of_int e \<le> \<bar>x\<bar>" and "\<bar>x\<bar> < 2 powr of_int (e + 1)" and "- 1022 \<le> e"
  shows "binade x = e"
proof -
  have "0 < \<bar>x\<bar>" using assms(1) powr_gt_zero [of 2 "of_int e"] by linarith
  moreover have "\<bar>x\<bar> < 2 powr (of_int e + 1)" using assms(2) by simp
  ultimately have "\<lfloor>log 2 \<bar>x\<bar>\<rfloor> = e"
    using assms(1) by (simp add: floor_log_eq_powr_iff)
  with assms(3) show ?thesis by (simp add: binade_def)
qed

lemma fl_eval_rne:
  assumes "2 powr of_int e \<le> \<bar>x\<bar>" and "\<bar>x\<bar> < 2 powr of_int (e + 1)"
    and "- 1022 \<le> e" and "e \<le> 1022"
    and r: "rne (x / 2 powr of_int (e - 52)) = m"
  shows "fl x = Finite (of_int m * 2 powr of_int (e - 52))"
proof -
  let ?q = "(2::real) powr of_int (e - 52)"
  have q: "0 < ?q" by simp
  have b: "binade x = e" using assms(1-3) by (rule binade_eq)
  have x0: "x \<noteq> 0" using assms(1) powr_gt_zero [of 2 "of_int e"] by auto
  have split: "(2::real) powr of_int (e + 1) = 2 ^ 53 * ?q"
  proof -
    have "(2::real) powr of_int (e + 1) = 2 powr (53 + of_int (e - 52))"
      by (simp add: algebra_simps)
    also have "\<dots> = 2 powr 53 * ?q" by (simp only: powr_add)
    finally show ?thesis by simp
  qed
  have "\<bar>x\<bar> \<le> 2 ^ 53 * ?q"
    using assms(2) unfolding split by simp
  then have "\<bar>x\<bar> / ?q \<le> 2 ^ 53"
    using q by (simp add: field_simps)
  moreover have "\<bar>x / ?q\<bar> = \<bar>x\<bar> / ?q" using q by simp
  ultimately have a: "\<bar>x / ?q\<bar> \<le> 2 ^ 53" by simp
  from a have "x / ?q \<le> 2 ^ 53" and "- (2 ^ 53) \<le> x / ?q" by linarith+
  then have "x / ?q \<le> of_int (2 ^ 53)" and "of_int (- (2 ^ 53)) \<le> x / ?q" by simp_all
  then have "m \<le> 2 ^ 53" and "- (2 ^ 53) \<le> m"
    using rne_le [of "x / ?q" "2 ^ 53"] rne_ge [of "- (2 ^ 53)" "x / ?q"] r by simp_all
  then have "\<bar>real_of_int m\<bar> \<le> real_of_int (2 ^ 53)" by linarith
  then have "\<bar>real_of_int m\<bar> \<le> 2 ^ 53" by simp
  then have "\<bar>of_int m * ?q\<bar> \<le> 2 ^ 53 * ?q"
    using q by (simp add: abs_mult)
  also have "\<dots> = 2 powr of_int (e + 1)" by (simp only: split)
  also have "\<dots> \<le> 2 powr 1023" using assms(4) by (intro powr_mono) simp_all
  also have "\<dots> < 2 ^ 1024" by simp
  finally have fin: "\<not> 2 ^ 1024 \<le> \<bar>of_int m * ?q\<bar>" by simp
  show ?thesis by (simp only: fl_def Let_def b r x0 fin if_False)
qed

lemma fl_eval:
  assumes "2 powr of_int e \<le> \<bar>x\<bar>" and "\<bar>x\<bar> < 2 powr of_int (e + 1)"
    and "- 1022 \<le> e" and "e \<le> 1022"
    and "\<bar>x / 2 powr of_int (e - 52) - of_int m\<bar> < 1 / 2"
  shows "fl x = Finite (of_int m * 2 powr of_int (e - 52))"
  using assms(1-4) rne_eqI [OF assms(5)] by (rule fl_eval_rne)

lemma fl_bound:
  assumes "\<bar>x\<bar> \<le> 2 powr of_int k" and "- 1022 \<le> k" and "k \<le> 1023"
  shows "\<exists>v. fl x = Finite v \<and> \<bar>v\<bar> \<le> 2 powr of_int k \<and> (0 \<le> x \<longrightarrow> 0 \<le> v) \<and> (x \<le> 0 \<longrightarrow> v \<le> 0)"
proof (cases "x = 0")
  case True
  then show ?thesis by simp
next
  case False
  let ?E = "binade x"
  let ?q = "(2::real) powr of_int (?E - 52)"
  let ?N = "(2::int) ^ nat (k - ?E + 52)"
  have q: "0 < ?q" by simp
  from False have "log 2 \<bar>x\<bar> \<le> of_int k"
    using assms(1) by (simp add: log_le_iff)
  then have "\<lfloor>log 2 \<bar>x\<bar>\<rfloor> \<le> k" by (simp add: floor_le_iff)
  with assms(2) have E: "?E \<le> k" by (simp add: binade_def)
  have N: "real_of_int ?N * ?q = 2 powr of_int k"
  proof -
    have "real_of_int ?N = 2 powr real (nat (k - ?E + 52))"
      by (simp add: powr_realpow)
    also have "real (nat (k - ?E + 52)) = of_int (k - ?E + 52)" using E by simp
    finally have "real_of_int ?N * ?q = 2 powr (of_int (k - ?E + 52) + of_int (?E - 52))"
      by (simp only: powr_add)
    then show ?thesis by simp
  qed
  have "\<bar>x\<bar> \<le> real_of_int ?N * ?q" using assms(1) by (simp only: N)
  then have "\<bar>x\<bar> / ?q \<le> real_of_int ?N"
    using q by (simp add: field_simps)
  moreover have "\<bar>x / ?q\<bar> = \<bar>x\<bar> / ?q" using q by simp
  ultimately have a: "\<bar>x / ?q\<bar> \<le> real_of_int ?N" by simp
  from a have up: "x / ?q \<le> of_int ?N" and "- real_of_int ?N \<le> x / ?q" by linarith+
  then have lo: "of_int (- ?N) \<le> x / ?q" by simp
  let ?m = "rne (x / ?q)"
  from up have m_up: "?m \<le> ?N" by (rule rne_le)
  from lo have m_lo: "- ?N \<le> ?m" by (rule rne_ge)
  from m_up m_lo have "\<bar>real_of_int ?m\<bar> \<le> real_of_int ?N" by linarith
  then have "\<bar>of_int ?m * ?q\<bar> \<le> real_of_int ?N * ?q"
    using q by (simp add: abs_mult)
  then have bound: "\<bar>of_int ?m * ?q\<bar> \<le> 2 powr of_int k" by (simp only: N)
  also have "\<dots> \<le> 2 powr 1023" using assms(3) by (intro powr_mono) simp_all
  also have "\<dots> < 2 ^ 1024" by simp
  finally have fin: "\<not> 2 ^ 1024 \<le> \<bar>of_int ?m * ?q\<bar>" by simp
  have pos: "0 \<le> x \<longrightarrow> 0 \<le> of_int ?m * ?q"
  proof
    assume "0 \<le> x"
    then have "of_int 0 \<le> x / ?q" using q by simp
    then have "0 \<le> ?m" by (rule rne_ge)
    then show "0 \<le> of_int ?m * ?q" using q by simp
  qed
  have neg: "x \<le> 0 \<longrightarrow> of_int ?m * ?q \<le> 0"
  proof
    assume "x \<le> 0"
    then have "x / ?q \<le> of_int 0" using q by (simp add: field_simps)
    then have "?m \<le> 0" by (rule rne_le)
    then show "of_int ?m * ?q \<le> 0" using q by (simp add: mult_le_0_iff)
  qed
  have "fl x = Finite (of_int ?m * ?q)"
    by (simp only: fl_def Let_def False fin if_False)
  with bound pos neg show ?thesis by blast
qed

lemma rne_error: "\<bar>real_of_int (rne y) - y\<bar> \<le> 1 / 2"
proof -
  have "real_of_int \<lfloor>y\<rfloor> \<le> y" and "y < real_of_int \<lfloor>y\<rfloor> + 1" by linarith+
  then show ?thesis
    unfolding rne_def Let_def by (auto simp: abs_le_iff)
qed

lemma fl_error:
  assumes "\<bar>x\<bar> \<le> 2 powr of_int k" and "- 1022 \<le> k" and "k \<le> 1023"
  shows "\<exists>v. fl x = Finite v \<and> \<bar>v - x\<bar> \<le> 2 powr of_int (k - 53)"
proof (cases "x = 0")
  case True
  then show ?thesis by simp
next
  case False
  let ?E = "binade x"
  let ?q = "(2::real) powr of_int (?E - 52)"
  let ?m = "rne (x / ?q)"
  have q: "0 < ?q" by simp
  from fl_bound [OF assms] obtain v where v: "fl x = Finite v" by blast
  from False have "log 2 \<bar>x\<bar> \<le> of_int k"
    using assms(1) by (simp add: log_le_iff)
  then have "\<lfloor>log 2 \<bar>x\<bar>\<rfloor> \<le> k" by (simp add: floor_le_iff)
  with assms(2) have E: "?E \<le> k" by (simp add: binade_def)
  have "fl x = Finite (of_int ?m * ?q) \<or> fl x = PosInf \<or> fl x = NegInf"
    using False by (simp add: fl_def Let_def)
  with v have veq: "v = of_int ?m * ?q" by auto
  have "v - x = (of_int ?m - x / ?q) * ?q" using q by (simp add: veq field_simps)
  then have "\<bar>v - x\<bar> = \<bar>of_int ?m - x / ?q\<bar> * ?q" using q by (simp add: abs_mult)
  also have "\<dots> \<le> 1 / 2 * ?q"
    using rne_error [of "x / ?q"] q by (intro mult_right_mono) simp_all
  also have "\<dots> = 2 powr (of_int (?E - 52) - 1)" by (simp add: powr_diff)
  also have "\<dots> \<le> 2 powr of_int (k - 53)" using E by (intro powr_mono) simp_all
  finally show ?thesis using v by blast
qed

lemma fl_nonneg: "0 \<le> x \<Longrightarrow> nonnegOrInf (fl x)"
proof (cases "x = 0")
  case True
  then show ?thesis by (simp add: nonnegOrInf_def)
next
  case False
  assume "0 \<le> x"
  let ?q = "(2::real) powr of_int (binade x - 52)"
  have q: "0 < ?q" by simp
  from \<open>0 \<le> x\<close> have "of_int 0 \<le> x / ?q" using q by simp
  then have "0 \<le> rne (x / ?q)" by (rule rne_ge)
  then have "0 \<le> of_int (rne (x / ?q)) * ?q" using q by simp
  with False \<open>0 \<le> x\<close> show ?thesis
    by (simp add: fl_def Let_def nonnegOrInf_def)
qed

lemma fl_not_NaN: "fl x \<noteq> NaN"
  by (simp add: fl_def Let_def)

section \<open>The generators over doubles\<close>

lemma forward_f64_fields [simp]:
  "heading64 (forward_f64 t d) = heading64 t"
  "penColor64 (forward_f64 t d) = penColor64 t"
  "path64 (forward_f64 t d) = path64 t @ [stroke64 t d]"
  by (simp_all add: forward_f64_def stroke64_def Let_def)

lemma turn_f64_fields [simp]:
  "heading64 (turn_f64 t a) = f64_add (heading64 t) a"
  "penColor64 (turn_f64 t a) = penColor64 t"
  "path64 (turn_f64 t a) = path64 t"
  "position64 (turn_f64 t a) = position64 t"
  by (simp_all add: turn_f64_def)





lemma spiral64_loop_unroll:
  "i \<le> n \<Longrightarrow> k = n - i \<Longrightarrow>
   drawSpiralingCircle_f64_loop (real n) ang i (((\<lambda>c. f64_mul c (fl 1.05)) ^^ i) r) t
     = fold (\<lambda>j u. turn_f64 (forward_f64 u
                (calculateChordLength_f64 (((\<lambda>c. f64_mul c (fl 1.05)) ^^ j) r) ang)) ang)
         [i..<n] t"
proof (induction k arbitrary: i t)
  case 0
  then show ?case by (subst drawSpiralingCircle_f64_loop.simps) simp
next
  case (Suc k)
  let ?G = "\<lambda>c. f64_mul c (fl 1.05)"
  let ?f = "\<lambda>j u. turn_f64 (forward_f64 u (calculateChordLength_f64 ((?G ^^ j) r) ang)) ang"
  from Suc.prems have lt: "i < n" and le: "i + 1 \<le> n" and k: "k = n - (i + 1)" by simp_all
  have grow: "f64_mul ((?G ^^ i) r) (fl 1.05) = (?G ^^ (i + 1)) r" by simp
  have "drawSpiralingCircle_f64_loop (real n) ang i ((?G ^^ i) r) t
          = drawSpiralingCircle_f64_loop (real n) ang (i + 1) (f64_mul ((?G ^^ i) r) (fl 1.05)) (?f i t)"
    using lt by (subst drawSpiralingCircle_f64_loop.simps) (simp add: Let_def)
  also have "\<dots> = drawSpiralingCircle_f64_loop (real n) ang (i + 1) ((?G ^^ (i + 1)) r) (?f i t)"
    by (simp only: grow)
  also have "\<dots> = fold ?f [i + 1..<n] (?f i t)"
    using le k by (rule Suc.IH)
  also have "\<dots> = fold ?f [i..<n] t"
    using lt by (simp add: upt_conv_Cons)
  finally show ?case .
qed

lemma drawSpiralingCircle_f64_nat:
  "drawSpiralingCircle_f64 t r (real n)
     = fold (\<lambda>j u. turn_f64 (forward_f64 u
                (calculateChordLength_f64 (((\<lambda>c. f64_mul c (fl 1.05)) ^^ j) r)
                   (f64_div (Finite 360) (Finite (real n)))))
              (f64_div (Finite 360) (Finite (real n))))
         [0..<n] t"
  using spiral64_loop_unroll [of 0 n n "f64_div (Finite 360) (Finite (real n))" r t]
  by (simp add: drawSpiralingCircle_f64_def)

lemma steps64_heading:
  "heading64 (fold (\<lambda>j u. turn_f64 (forward_f64 u (f j)) ang) [0..<k] t)
     = ((\<lambda>h. f64_add h ang) ^^ k) (heading64 t)"
  by (induction k) simp_all

lemma steps64_path:
  "path64 (fold (\<lambda>j u. turn_f64 (forward_f64 u (f j)) ang) [0..<k] t)
     = path64 t @ map (\<lambda>j. stroke64 (fold (\<lambda>j u. turn_f64 (forward_f64 u (f j)) ang) [0..<j] t) (f j))
                    [0..<k]"
  by (induction k) simp_all

section \<open>Accumulated turns\<close>

lemma quotient_360_7:
  "f64_div (Finite 360) (Finite (real (7::nat))) = Finite (3618963986279863 / 2 ^ 46)"
  using fl_eval [of 5 "360 / 7" 7237927972559726] by (simp add: powr_neg_numeral)

lemma seventh_1: "f64_add (Finite 0) (Finite (3618963986279863 / 2 ^ 46)) = Finite (3618963986279863 / 2 ^ 46)"
  using fl_eval [of 5 "3618963986279863 / 2 ^ 46" 7237927972559726] by (simp add: powr_neg_numeral)

lemma seventh_2:
  "f64_add (Finite (3618963986279863 / 2 ^ 46)) (Finite (3618963986279863 / 2 ^ 46))
     = Finite (3618963986279863 / 2 ^ 45)"
  using fl_eval [of 6 "3618963986279863 / 2 ^ 46 + 3618963986279863 / 2 ^ 46" 7237927972559726]
  by (simp add: powr_neg_numeral)

lemma seventh_3:
  "f64_add (Finite (3618963986279863 / 2 ^ 45)) (Finite (3618963986279863 / 2 ^ 46))
     = Finite (2714222989709897 / 2 ^ 44)"
  using fl_eval_rne [of 7 "3618963986279863 / 2 ^ 45 + 3618963986279863 / 2 ^ 46" 5428445979419794]
  by (simp add: powr_neg_numeral rne_def Let_def)

lemma seventh_4:
  "f64_add (Finite (2714222989709897 / 2 ^ 44)) (Finite (3618963986279863 / 2 ^ 46))
     = Finite (3618963986279863 / 2 ^ 44)"
  using fl_eval_rne [of 7 "2714222989709897 / 2 ^ 44 + 3618963986279863 / 2 ^ 46" 7237927972559726]
  by (simp add: powr_neg_numeral rne_def Let_def)

lemma seventh_5:
  "f64_add (Finite (3618963986279863 / 2 ^ 44)) (Finite (3618963986279863 / 2 ^ 46))
     = Finite (4523704982849829 / 2 ^ 44)"
  using fl_eval [of 8 "3618963986279863 / 2 ^ 44 + 3618963986279863 / 2 ^ 46" 4523704982849829]
  by (simp add: powr_neg_numeral)

lemma seventh_6:
  "f64_add (Finite (4523704982849829 / 2 ^ 44)) (Finite (3618963986279863 / 2 ^ 46))
     = Finite (5428445979419795 / 2 ^ 44)"
  using fl_eval [of 8 "4523704982849829 / 2 ^ 44 + 3618963986279863 / 2 ^ 46" 5428445979419795]
  by (simp add: powr_neg_numeral)

lemma seventh_7:
  "f64_add (Finite (5428445979419795 / 2 ^ 44)) (Finite (3618963986279863 / 2 ^ 46))
     = Finite (6333186975989761 / 2 ^ 44)"
  using fl_eval [of 8 "5428445979419795 / 2 ^ 44 + 3618963986279863 / 2 ^ 46" 6333186975989761]
  by (simp add: powr_neg_numeral)

lemma funpow_seven: "(f ^^ 7) x = f (f (f (f (f (f (f x))))))"
  by (simp add: eval_nat_numeral)

lemma seven_turns:
  "((\<lambda>h. f64_add h (f64_div (Finite 360) (Finite (real (7::nat))))) ^^ 7) (Finite 0)
     = Finite (6333186975989761 / 2 ^ 44)"
  by (simp only: funpow_seven quotient_360_7
      seventh_1 seventh_2 seventh_3 seventh_4 seventh_5 seventh_6 seventh_7)

lemma seven_turns_off: "\<not> headingsAgreeMod360 (Finite 0) (Finite (6333186975989761 / 2 ^ 44))"
proof -
  have "\<lfloor>(6333186975989761 / 2 ^ 44 - 0) / (360::real)\<rfloor> = 1" by (simp add: floor_eq_iff)
  then show ?thesis by (simp add: headingsAgreeMod360_def)
qed

lemma abs_three: "\<bar>a + b + c\<bar> \<le> \<bar>a\<bar> + \<bar>b\<bar> + \<bar>c\<bar>"
  for a b c :: real
  by linarith

lemma turns_close:
  assumes n: "1 \<le> n" "n \<le> 2 ^ 20" and h0: "\<bar>h0\<bar> \<le> 512"
  shows "\<exists>h. ((\<lambda>h. f64_add h (f64_div (Finite 360) (Finite (real n)))) ^^ n) (Finite h0) = Finite h
           \<and> \<bar>h - (h0 + 360)\<bar> \<le> real n / 2 ^ 42"
proof -
  let ?d = "360 / real n"
  have npos: "0 < real n" using n(1) by simp
  have d_le: "\<bar>?d\<bar> \<le> 2 powr of_int 9"
  proof -
    have "360 / real n \<le> 360 / 1" using n(1) by (intro divide_left_mono) simp_all
    then show ?thesis using npos by simp
  qed
  from fl_error [OF d_le] obtain a where a: "fl ?d = Finite a" "\<bar>a - ?d\<bar> \<le> 2 powr of_int (9 - 53)"
    by auto
  have quot: "f64_div (Finite 360) (Finite (real n)) = Finite a"
    using npos a(1) by simp
  have a_err: "\<bar>a - ?d\<bar> \<le> 1 / 2 ^ 44" using a(2) by (simp add: powr_neg_numeral)
  have nreal: "real n \<le> 2 ^ 20"
    using n(2) by (metis of_nat_le_iff of_nat_numeral of_nat_power)
  have step: "j \<le> n \<Longrightarrow> \<exists>h. ((\<lambda>h. f64_add h (Finite a)) ^^ j) (Finite h0) = Finite h
                  \<and> \<bar>h - (h0 + real j * ?d)\<bar> \<le> real j / 2 ^ 42" for j
  proof (induction j)
    case 0
    show ?case by simp
  next
    case (Suc j)
    then obtain h where h: "((\<lambda>h. f64_add h (Finite a)) ^^ j) (Finite h0) = Finite h"
      "\<bar>h - (h0 + real j * ?d)\<bar> \<le> real j / 2 ^ 42" by auto
    from Suc.prems have jn: "real j + 1 \<le> real n" by simp
    have jd: "0 \<le> real j * ?d" using npos by simp
    have nd: "real n * ?d = 360" using npos by simp
    have "(real j + 1) * ?d \<le> real n * ?d"
      using jn npos by (intro mult_right_mono) simp_all
    then have "(real j + 1) * ?d \<le> 360" by (simp only: nd)
    moreover have "(real j + 1) * ?d = real j * ?d + ?d"
      by (simp only: distrib_right mult_1_left)
    ultimately have jd1: "real j * ?d + ?d \<le> 360" by (simp only:)
    have jerr: "real j / 2 ^ 42 \<le> 1 / 2 ^ 22"
    proof -
      have "real j \<le> 2 ^ 20" using jn nreal by simp
      then have "real j / 2 ^ 42 \<le> 2 ^ 20 / 2 ^ 42" by (intro divide_right_mono) simp_all
      then show ?thesis by simp
    qed
    have dpos: "0 \<le> ?d" using npos by simp
    have "\<bar>h + a\<bar> \<le> \<bar>h - (h0 + real j * ?d)\<bar> + \<bar>h0\<bar> + \<bar>a - ?d\<bar> + (real j * ?d + ?d)"
      using jd dpos by linarith
    also have "\<dots> \<le> 1 / 2 ^ 22 + 512 + 1 / 2 ^ 44 + 360"
      using h(2) jerr h0 a_err jd1 by linarith
    also have "\<dots> \<le> 2 powr of_int 10" by simp
    finally have "\<bar>h + a\<bar> \<le> 2 powr of_int 10" .
    from fl_error [OF this] obtain h' where h': "fl (h + a) = Finite h'"
      "\<bar>h' - (h + a)\<bar> \<le> 2 powr of_int (10 - 53)" by auto
    have h'_err: "\<bar>h' - (h + a)\<bar> \<le> 1 / 2 ^ 43" using h'(2) by (simp add: powr_neg_numeral)
    have sj: "real (Suc j) * ?d = real j * ?d + ?d"
      by (simp only: of_nat_Suc distrib_right mult_1_left add.commute)
    have "\<bar>h' - (h0 + real (Suc j) * ?d)\<bar>
            \<le> \<bar>h' - (h + a)\<bar> + \<bar>h - (h0 + real j * ?d)\<bar> + \<bar>a - ?d\<bar>"
    proof -
      have "h' - (h0 + real (Suc j) * ?d) = (h' - (h + a)) + (h - (h0 + real j * ?d)) + (a - ?d)"
        unfolding sj by simp
      then show ?thesis by (simp only: abs_three)
    qed
    also have "\<dots> \<le> 1 / 2 ^ 43 + real j / 2 ^ 42 + 1 / 2 ^ 44"
      using h'_err h(2) a_err by linarith
    also have "\<dots> \<le> real (Suc j) / 2 ^ 42" by (simp add: field_simps)
    finally have "\<bar>h' - (h0 + real (Suc j) * ?d)\<bar> \<le> real (Suc j) / 2 ^ 42" .
    moreover have "((\<lambda>h. f64_add h (Finite a)) ^^ Suc j) (Finite h0) = Finite h'"
      by (simp add: h(1) h'(1))
    ultimately show ?case by blast
  qed
  from step [of n] obtain h where h: "((\<lambda>h. f64_add h (Finite a)) ^^ n) (Finite h0) = Finite h"
    "\<bar>h - (h0 + real n * ?d)\<bar> \<le> real n / 2 ^ 42" by auto
  have "real n * ?d = 360" using npos by simp
  with h show ?thesis unfolding quot by auto
qed

section \<open>The distance over doubles\<close>

lemma fl_sqrt_eval:
  assumes lo: "((of_int m - 1 / 2) * 2 powr of_int (e - 52))\<^sup>2 < x"
    and hi: "x < ((of_int m + 1 / 2) * 2 powr of_int (e - 52))\<^sup>2"
    and m: "2 ^ 52 < m" "m < 2 ^ 53" and e: "- 1022 \<le> e" "e \<le> 1022"
  shows "fl (sqrt x) = Finite (of_int m * 2 powr of_int (e - 52))"
proof -
  let ?q = "(2::real) powr of_int (e - 52)"
  have q: "0 < ?q" by simp
  from m have "2 ^ 52 + 1 \<le> m" and "m + 1 \<le> 2 ^ 53" by simp_all
  then have "real_of_int (2 ^ 52 + 1) \<le> real_of_int m"
    and "real_of_int (m + 1) \<le> real_of_int (2 ^ 53)"
    by (simp_all only: of_int_le_iff)
  then have mr: "2 ^ 52 + 1 \<le> real_of_int m" "real_of_int m + 1 \<le> 2 ^ 53" by simp_all
  have lo0: "0 \<le> (of_int m - 1 / 2) * ?q" using mr q by simp
  have hi0: "0 \<le> (of_int m + 1 / 2) * ?q" using mr q by simp
  from lo lo0 have l: "(of_int m - 1 / 2) * ?q < sqrt x" by (intro real_less_rsqrt)
  have x0: "0 \<le> x"
    using lo zero_le_power2 [of "(of_int m - 1 / 2) * ?q"] by linarith
  from hi hi0 x0 have h: "sqrt x < (of_int m + 1 / 2) * ?q" by (intro real_less_lsqrt)
  have e1: "(2::real) powr of_int e = 2 ^ 52 * ?q"
  proof -
    have "(2::real) powr of_int e = 2 powr (52 + of_int (e - 52))" by (simp add: algebra_simps)
    also have "\<dots> = 2 powr 52 * ?q" by (simp only: powr_add)
    finally show ?thesis by simp
  qed
  have e2: "(2::real) powr of_int (e + 1) = 2 ^ 53 * ?q"
  proof -
    have "(2::real) powr of_int (e + 1) = 2 powr (53 + of_int (e - 52))" by (simp add: algebra_simps)
    also have "\<dots> = 2 powr 53 * ?q" by (simp only: powr_add)
    finally show ?thesis by simp
  qed
  have "2 ^ 52 * ?q \<le> (of_int m - 1 / 2) * ?q"
    using mr q by (intro mult_right_mono) simp_all
  then have s1: "2 ^ 52 * ?q < sqrt x" using l by (rule le_less_trans)
  have b1: "2 powr of_int e \<le> \<bar>sqrt x\<bar>" unfolding e1 using s1 by linarith
  have "(of_int m + 1 / 2) * ?q \<le> 2 ^ 53 * ?q"
    using mr q by (intro mult_right_mono) simp_all
  with h have s2: "sqrt x < 2 ^ 53 * ?q" by (rule less_le_trans)
  have "0 \<le> sqrt x" using x0 by simp
  with s2 have b2: "\<bar>sqrt x\<bar> < 2 powr of_int (e + 1)" unfolding e2 by linarith
  from l q have "of_int m - 1 / 2 < sqrt x / ?q" by (simp add: field_simps)
  moreover from h q have "sqrt x / ?q < of_int m + 1 / 2" by (simp add: field_simps)
  ultimately have "\<bar>sqrt x / ?q - of_int m\<bar> < 1 / 2" by linarith
  with b1 b2 e show ?thesis by (intro fl_eval)
qed

lemma sqrt_2_f64: "f64_sqrt (Finite 2) = Finite (6369051672525773 / 2 ^ 52)"
  using fl_sqrt_eval [of 6369051672525773 0 2] by (simp add: powr_neg_numeral power2_eq_square)

lemma sqrt_18_f64: "f64_sqrt (Finite 18) = Finite (4776788754394329 / 2 ^ 50)"
  using fl_sqrt_eval [of 4776788754394329 2 18] by (simp add: powr_neg_numeral power2_eq_square)

lemma sqrt_32_f64: "f64_sqrt (Finite 32) = Finite (6369051672525773 / 2 ^ 50)"
  using fl_sqrt_eval [of 6369051672525773 2 32] by (simp add: powr_neg_numeral power2_eq_square)

lemma fl_minus_1: "fl (- 1) = Finite (- 1)"
  using fl_eval [of 0 "- 1" "- 4503599627370496"] by (simp add: powr_neg_numeral)
lemma fl_1: "fl 1 = Finite 1"
  using fl_eval [of 0 1 4503599627370496] by (simp add: powr_neg_numeral)
lemma fl_2: "fl 2 = Finite 2"
  using fl_eval [of 1 2 4503599627370496] by (simp add: powr_neg_numeral)
lemma fl_minus_3: "fl (- 3) = Finite (- 3)"
  using fl_eval [of 1 "- 3" "- 6755399441055744"] by (simp add: powr_neg_numeral)
lemma fl_9: "fl 9 = Finite 9"
  using fl_eval [of 3 9 5066549580791808] by (simp add: powr_neg_numeral)
lemma fl_18: "fl 18 = Finite 18"
  using fl_eval [of 4 18 5066549580791808] by (simp add: powr_neg_numeral)
lemma fl_minus_4: "fl (- 4) = Finite (- 4)"
  using fl_eval [of 2 "- 4" "- 4503599627370496"] by (simp add: powr_neg_numeral)
lemma fl_16: "fl 16 = Finite 16"
  using fl_eval [of 4 16 4503599627370496] by (simp add: powr_neg_numeral)
lemma fl_32: "fl 32 = Finite 32"
  using fl_eval [of 5 32 4503599627370496] by (simp add: powr_neg_numeral)

lemma distance_0_1:
  "computeDistance_f64 \<lparr>x64 = Finite 0, y64 = Finite 0\<rparr> \<lparr>x64 = Finite 1, y64 = Finite 1\<rparr>
     = Finite (6369051672525773 / 2 ^ 52)"
  by (simp add: computeDistance_f64_def f64_sub_def fl_minus_1 fl_1 fl_2 sqrt_2_f64
      del: f64_sqrt.simps)

lemma distance_1_4:
  "computeDistance_f64 \<lparr>x64 = Finite 1, y64 = Finite 1\<rparr> \<lparr>x64 = Finite 4, y64 = Finite 4\<rparr>
     = Finite (4776788754394329 / 2 ^ 50)"
  by (simp add: computeDistance_f64_def f64_sub_def fl_minus_3 fl_9 fl_18 sqrt_18_f64
      del: f64_sqrt.simps)

lemma distance_0_4:
  "computeDistance_f64 \<lparr>x64 = Finite 0, y64 = Finite 0\<rparr> \<lparr>x64 = Finite 4, y64 = Finite 4\<rparr>
     = Finite (6369051672525773 / 2 ^ 50)"
  by (simp add: computeDistance_f64_def f64_sub_def fl_minus_4 fl_16 fl_32 sqrt_32_f64
      del: f64_sqrt.simps)

lemma detour_0_1_4:
  "f64_add (Finite (6369051672525773 / 2 ^ 52)) (Finite (4776788754394329 / 2 ^ 50))
     = Finite (1592262918131443 / 2 ^ 48)"
  using fl_eval [of 2 "6369051672525773 / 2 ^ 52 + 4776788754394329 / 2 ^ 50" 6369051672525772]
  by (simp add: powr_neg_numeral)

lemma nonnegOrInf_eq: "nonnegOrInf u \<Longrightarrow> f64_eq u u"
  by (cases u) (simp_all add: nonnegOrInf_def)

lemma square_nonneg: "u \<noteq> NaN \<Longrightarrow> nonnegOrInf (f64_mul u u)"
  by (cases u) (simp_all add: fl_nonneg, simp_all add: nonnegOrInf_def)

lemma add_nonneg: "nonnegOrInf u \<Longrightarrow> nonnegOrInf v \<Longrightarrow> nonnegOrInf (f64_add u v)"
  by (cases u; cases v) (simp_all add: nonnegOrInf_def fl_nonneg [unfolded nonnegOrInf_def])

lemma sqrt_nonneg: "nonnegOrInf u \<Longrightarrow> nonnegOrInf (f64_sqrt u)"
  by (cases u) (simp_all add: nonnegOrInf_def fl_nonneg [unfolded nonnegOrInf_def])

lemma sub_finite_not_NaN: "f64_sub (Finite a) (Finite b) \<noteq> NaN"
  by (simp add: f64_sub_def fl_not_NaN)

lemma sub_swap: "f64_sub (Finite b) (Finite a) = f64_neg (f64_sub (Finite a) (Finite b))"
  using fl_neg [of "a - b"] by (simp add: f64_sub_def)

lemma square_neg: "f64_mul (f64_neg u) (f64_neg u) = f64_mul u u"
  by (cases u) simp_all

lemma distance_f64_nonneg:
  "nonnegOrInf (computeDistance_f64 \<lparr>x64 = Finite ax, y64 = Finite ay\<rparr>
                                    \<lparr>x64 = Finite bx, y64 = Finite by\<rparr>)"
  by (simp add: computeDistance_f64_def Let_def sqrt_nonneg add_nonneg square_nonneg
      sub_finite_not_NaN del: f64_sqrt.simps f64_add.simps f64_mul.simps)

lemma distance_f64_swap:
  "computeDistance_f64 \<lparr>x64 = Finite bx, y64 = Finite by\<rparr> \<lparr>x64 = Finite ax, y64 = Finite ay\<rparr>
     = computeDistance_f64 \<lparr>x64 = Finite ax, y64 = Finite ay\<rparr> \<lparr>x64 = Finite bx, y64 = Finite by\<rparr>"
  by (simp add: computeDistance_f64_def Let_def sub_swap [of bx ax] sub_swap [of "by" ay] square_neg
      del: f64_sqrt.simps f64_add.simps f64_mul.simps)

lemma distance_f64_self:
  "computeDistance_f64 \<lparr>x64 = Finite px, y64 = Finite py\<rparr> \<lparr>x64 = Finite px, y64 = Finite py\<rparr>
     = Finite 0"
  by (simp add: computeDistance_f64_def f64_sub_def)

lemma distance_f64_infinite:
  "computeDistance_f64 \<lparr>x64 = PosInf, y64 = Finite 0\<rparr> \<lparr>x64 = PosInf, y64 = Finite 0\<rparr> = NaN"
  by (simp add: computeDistance_f64_def f64_sub_def)

section \<open>The chord length over doubles\<close>








lemma fl_90: "fl 90 = Finite 90"
  using fl_eval [of 6 90 6333186975989760] by (simp add: powr_neg_numeral)




section \<open>A square turns exactly\<close>

lemma fl_180: "fl 180 = Finite 180"
  using fl_eval [of 7 180 6333186975989760] by (simp add: powr_neg_numeral)
lemma fl_270: "fl 270 = Finite 270"
  using fl_eval [of 8 270 4749890231992320] by (simp add: powr_neg_numeral)
lemma fl_360: "fl 360 = Finite 360"
  using fl_eval [of 8 360 6333186975989760] by (simp add: powr_neg_numeral)

lemma funpow_four: "(f ^^ 4) x = f (f (f (f x)))"
  by (simp add: eval_nat_numeral)

lemma four_turns:
  "((\<lambda>h. f64_add h (f64_div (Finite 360) (Finite (real (4::nat))))) ^^ 4) (Finite 0) = Finite 360"
proof -
  have q: "f64_div (Finite 360) (Finite (real (4::nat))) = Finite 90" by (simp add: fl_90)
  have "f64_add (Finite 0) (Finite 90) = Finite 90" by (simp add: fl_90)
  moreover have "f64_add (Finite 90) (Finite 90) = Finite 180" by (simp add: fl_180)
  moreover have "f64_add (Finite 180) (Finite 90) = Finite 270" by (simp add: fl_270)
  moreover have "f64_add (Finite 270) (Finite 90) = Finite 360" by (simp add: fl_360)
  ultimately show ?thesis by (simp only: funpow_four q)
qed

lemma heading_origin [simp]: "heading64 turtle64AtOrigin = Finite 0"
  and path_origin [simp]: "path64 turtle64AtOrigin = []"
  by (simp_all add: turtle64AtOrigin_def)

section \<open>The claims\<close>







text \<open>
  Claim C3. For every turtle and every point sequence of length \<open>n \<ge> 2\<close>,
  \<open>plotOptimalPath\<close> processes the consecutive pairs in order, each as \<open>travelLeg\<close> does:
  the bearing is \<open>atan2(deltaY, deltaX)\<close> in degrees, the turtle turns by exactly the bearing
  minus its current heading and then moves forward by the distance of the pair. It returns
  exactly \<open>2 * (n - 1)\<close> instruction strings. For the points \<open>(0,0)\<close> and \<open>(3,4)\<close> the
  distance travelled is \<open>5\<close> and the turn is \<open>atan2(4,3) * 180 / \<pi>\<close> minus the initial heading.
\<close>

theorem C3_path_legs:
  assumes "2 \<le> length ps"
  shows "plotOptimalPath t ps = fold travelLeg (zip ps (tl ps)) (t, [])
    \<and> length (snd (plotOptimalPath t ps)) = 2 * (length ps - 1)
    \<and> plotOptimalPath t [\<lparr>point_x = 0, point_y = 0\<rparr>, \<lparr>point_x = 3, point_y = 4\<rparr>]
        = (forward (turn t (Math_atan2 4 3 * 180 / pi - heading t)) 5,
           [''Turn '' @ toFixed2 (Math_atan2 4 3 * 180 / pi - heading t) @ '' degrees'',
            ''Move 5.00 units''])"
proof -
  have "length (snd (plotOptimalPath t ps)) = 2 * (length ps - 1)"
    by (simp add: plotOptimalPath_legs travelLeg_count)
  with plotOptimalPath_legs [of t ps] plotOptimalPath_3_4 [of t] show ?thesis by blast
qed

theorem C3_path_legs_witness:
  "2 \<le> length [\<lparr>point_x = 0, point_y = 0\<rparr>, \<lparr>point_x = 3, point_y = 4\<rparr>]
   \<and> length (snd (plotOptimalPath turtleAtOrigin
         [\<lparr>point_x = 0, point_y = 0\<rparr>, \<lparr>point_x = 3, point_y = 4\<rparr>])) = 2
   \<and> snd (plotOptimalPath turtleAtOrigin
         [\<lparr>point_x = 0, point_y = 0\<rparr>, \<lparr>point_x = 3, point_y = 4\<rparr>]) ! 1 = ''Move 5.00 units''"
proof -
  have h: "2 \<le> length [\<lparr>point_x = 0, point_y = 0\<rparr>, \<lparr>point_x = 3, point_y = 4\<rparr>]" by simp
  note legs = C3_path_legs [OF h, of turtleAtOrigin]
  have "length (snd (plotOptimalPath turtleAtOrigin
         [\<lparr>point_x = 0, point_y = 0\<rparr>, \<lparr>point_x = 3, point_y = 4\<rparr>]))
       = 2 * (length [\<lparr>point_x = 0, point_y = 0\<rparr>, \<lparr>point_x = 3, point_y = 4\<rparr>] - 1)"
    by (rule legs [THEN conjunct2, THEN conjunct1])
  also have "\<dots> = 2" by simp
  finally have count: "length (snd (plotOptimalPath turtleAtOrigin
         [\<lparr>point_x = 0, point_y = 0\<rparr>, \<lparr>point_x = 3, point_y = 4\<rparr>])) = 2" .
  have "snd (plotOptimalPath turtleAtOrigin
         [\<lparr>point_x = 0, point_y = 0\<rparr>, \<lparr>point_x = 3, point_y = 4\<rparr>]) ! 1 = ''Move 5.00 units''"
    by (simp only: legs [THEN conjunct2, THEN conjunct2]) simp
  with h count show ?thesis by (intro conjI)
qed

text \<open>
  Claim C4, as amended. \<open>drawPolygon\<close> with \<open>numSides = 0\<close> and \<open>drawSpiralingCircle\<close> with
  \<open>iterations = 0\<close> report no error: each returns normally with the turtle unchanged. The
  quotient by the count is not used, whatever its value, because the loop body never
  runs; so no segment is recorded, and in particular none with a NaN or infinite
  coordinate.
\<close>

theorem C4_zero_count_returns:
  "drawPolygon_outcome t s 0 = Inr t
   \<and> drawSpiralingCircle_outcome t r 0 = Inr t
   \<and> drawPolygon_loop s 0 anglePerTurn 0 t = t
   \<and> drawSpiralingCircle_loop 0 baseAngle 0 r t = t
   \<and> newSegments t (drawPolygon t s 0) = []
   \<and> newSegments t (drawSpiralingCircle t r 0) = []"
  by (simp add: drawPolygon_outcome_def drawSpiralingCircle_outcome_def
      drawPolygon_no_sides drawSpiralingCircle_no_iterations
      drawPolygon_zero drawSpiralingCircle_zero newSegments_def)

text \<open>
  Claim C4 as stated fails: with a count of \<open>0\<close> the outcome of either call is not an error.
\<close>

theorem C4_no_error_counterexample:
  "\<not> isl (drawPolygon_outcome turtleAtOrigin 10 0)
   \<and> \<not> isl (drawSpiralingCircle_outcome turtleAtOrigin 10 0)"
  by (simp add: drawPolygon_outcome_def drawSpiralingCircle_outcome_def)

text \<open>
  Claim C5. For every turtle, \<open>plotOptimalPath\<close> on the empty point sequence and on a
  sequence of one point returns no instruction and the turtle as it was: position,
  heading, pen colour and recorded path.
\<close>

theorem C5_short_sequences_unchanged:
  "plotOptimalPath t [] = (t, []) \<and> plotOptimalPath t [p] = (t, [])"
  by (simp add: plotOptimalPath_short)

text \<open>
  Claim C6, as amended. For every turtle, every radius \<open>r\<close> and every integer
  \<open>iterations \<ge> 1\<close> that the loop counter can reach (at most \<open>2\<^sup>5\<^sup>3\<close>),
  \<open>drawSpiralingCircle\<close> performs exactly \<open>iterations\<close> steps, where step
  \<open>k = 0, 1, \<dots>\<close> moves forward by \<open>calculateChordLength(r\<^sub>k, q)\<close> and then turns by \<open>q\<close>;
  here \<open>q\<close> is the double quotient \<open>360 / iterations\<close> and \<open>r\<^sub>k\<close> is \<open>r\<close> after \<open>k\<close> rounded
  multiplications by the double \<^verbatim>\<open>1.05\<close>. It appends one segment per step, and the final heading
  is the initial heading after \<open>iterations\<close> rounded additions of \<open>q\<close>. For
  \<open>iterations \<le> 2\<^sup>2\<^sup>0\<close> and an initial heading of magnitude at most \<open>512\<close> the net change of
  heading is within \<open>iterations * 2\<^sup>-\<^sup>4\<^sup>2\<close> of \<open>360\<close>; it need not be exactly \<open>360\<close>.
\<close>

theorem C6_spiral_in_doubles:
  assumes "1 \<le> n" and "n \<le> 2 ^ 53"
  shows "drawSpiralingCircle_f64 t r (real n)
           = fold (\<lambda>k u. turn_f64 (forward_f64 u
                      (calculateChordLength_f64 (((\<lambda>c. f64_mul c (fl 1.05)) ^^ k) r)
                         (f64_div (Finite 360) (Finite (real n)))))
                    (f64_div (Finite 360) (Finite (real n))))
               [0..<n] t
    \<and> length (path64 (drawSpiralingCircle_f64 t r (real n))) = length (path64 t) + n
    \<and> heading64 (drawSpiralingCircle_f64 t r (real n))
        = ((\<lambda>h. f64_add h (f64_div (Finite 360) (Finite (real n)))) ^^ n) (heading64 t)
    \<and> (n \<le> 2 ^ 20 \<and> heading64 t = Finite h0 \<and> \<bar>h0\<bar> \<le> 512 \<longrightarrow>
         (\<exists>h. heading64 (drawSpiralingCircle_f64 t r (real n)) = Finite h
              \<and> \<bar>h - (h0 + 360)\<bar> \<le> real n / 2 ^ 42))"
proof -
  let ?q = "f64_div (Finite 360) (Finite (real n))"
  let ?c = "\<lambda>k. calculateChordLength_f64 (((\<lambda>c. f64_mul c (fl 1.05)) ^^ k) r) ?q"
  let ?S = "fold (\<lambda>k u. turn_f64 (forward_f64 u (?c k)) ?q) [0..<n] t"
  have eq: "drawSpiralingCircle_f64 t r (real n) = ?S" by (rule drawSpiralingCircle_f64_nat)
  have l: "length (path64 ?S) = length (path64 t) + n"
    unfolding steps64_path [of ?c ?q n t] by simp
  have h: "heading64 ?S = ((\<lambda>h. f64_add h ?q) ^^ n) (heading64 t)"
    by (rule steps64_heading)
  have c: "n \<le> 2 ^ 20 \<and> heading64 t = Finite h0 \<and> \<bar>h0\<bar> \<le> 512 \<longrightarrow>
         (\<exists>h. heading64 ?S = Finite h \<and> \<bar>h - (h0 + 360)\<bar> \<le> real n / 2 ^ 42)"
  proof
    assume a: "n \<le> 2 ^ 20 \<and> heading64 t = Finite h0 \<and> \<bar>h0\<bar> \<le> 512"
    with assms(1) turns_close [of n h0] show
      "\<exists>h. heading64 ?S = Finite h \<and> \<bar>h - (h0 + 360)\<bar> \<le> real n / 2 ^ 42"
      unfolding h by auto
  qed
  show ?thesis unfolding eq using l h c by (intro conjI) auto
qed

theorem C6_spiral_in_doubles_witness:
  "(1::nat) \<le> 4 \<and> (4::nat) \<le> 2 ^ 53
   \<and> length (path64 (drawSpiralingCircle_f64 turtle64AtOrigin (Finite 1) (real (4::nat)))) = 4
   \<and> heading64 (drawSpiralingCircle_f64 turtle64AtOrigin (Finite 1) (real (4::nat))) = Finite 360"
proof -
  have h: "(1::nat) \<le> 4" and b: "(4::nat) \<le> 2 ^ 53" by simp_all
  note steps = C6_spiral_in_doubles [OF h b, of turtle64AtOrigin "Finite 1"]
  have "length (path64 (drawSpiralingCircle_f64 turtle64AtOrigin (Finite 1) (real (4::nat))))
          = length (path64 turtle64AtOrigin) + 4"
    by (rule steps [THEN conjunct2, THEN conjunct1])
  then have count:
    "length (path64 (drawSpiralingCircle_f64 turtle64AtOrigin (Finite 1) (real (4::nat)))) = 4"
    by simp
  have "heading64 (drawSpiralingCircle_f64 turtle64AtOrigin (Finite 1) (real (4::nat)))
          = ((\<lambda>h. f64_add h (f64_div (Finite 360) (Finite (real (4::nat))))) ^^ 4)
              (heading64 turtle64AtOrigin)"
    by (rule steps [THEN conjunct2, THEN conjunct2, THEN conjunct1])
  also have "\<dots> = Finite 360" by (simp only: heading_origin four_turns)
  finally have
    "heading64 (drawSpiralingCircle_f64 turtle64AtOrigin (Finite 1) (real (4::nat))) = Finite 360" .
  with h b count show ?thesis by (intro conjI)
qed

text \<open>
  Claim C6 as stated fails for seven iterations from heading \<open>0\<close>: the final heading is
  \<open>360 + 2\<^sup>-\<^sup>4\<^sup>4\<close>, so the net change is not \<open>360\<close> and the final heading is not the initial one
  modulo \<open>360\<close>.
\<close>

theorem C6_seven_steps_counterexample:
  "(1::nat) \<le> 7 \<and> (7::nat) \<le> 2 ^ 53
   \<and> heading64 turtle64AtOrigin = Finite 0
   \<and> heading64 (drawSpiralingCircle_f64 turtle64AtOrigin (Finite 1) (real (7::nat)))
       = Finite (6333186975989761 / 2 ^ 44)
   \<and> Finite (6333186975989761 / 2 ^ 44) \<noteq> Finite (0 + 360)
   \<and> \<not> headingsAgreeMod360 (heading64 turtle64AtOrigin)
          (heading64 (drawSpiralingCircle_f64 turtle64AtOrigin (Finite 1) (real (7::nat))))"
proof -
  have "heading64 (drawSpiralingCircle_f64 turtle64AtOrigin (Finite 1) (real (7::nat)))
          = ((\<lambda>h. f64_add h (f64_div (Finite 360) (Finite (real (7::nat))))) ^^ 7)
              (heading64 turtle64AtOrigin)"
    unfolding drawSpiralingCircle_f64_nat by (rule steps64_heading)
  also have "\<dots> = Finite (6333186975989761 / 2 ^ 44)"
    by (simp only: heading_origin seven_turns)
  finally have e: "heading64 (drawSpiralingCircle_f64 turtle64AtOrigin (Finite 1) (real (7::nat)))
          = Finite (6333186975989761 / 2 ^ 44)" .
  have "\<not> headingsAgreeMod360 (heading64 turtle64AtOrigin)
          (heading64 (drawSpiralingCircle_f64 turtle64AtOrigin (Finite 1) (real (7::nat))))"
    unfolding e heading_origin by (rule seven_turns_off)
  with e show ?thesis by simp
qed

text \<open>
  Claim C8, as amended. For all points with finite coordinates,
  \<open>computeDistance(p, p) == 0\<close> and \<open>computeDistance(a, b) == computeDistance(b, a)\<close>.
  The triangle inequality is not asserted of the computed doubles.
\<close>

theorem C8_distance_in_doubles:
  "f64_eq (computeDistance_f64 \<lparr>x64 = Finite px, y64 = Finite py\<rparr>
                               \<lparr>x64 = Finite px, y64 = Finite py\<rparr>) (Finite 0)
   \<and> f64_eq (computeDistance_f64 \<lparr>x64 = Finite ax, y64 = Finite ay\<rparr>
                                 \<lparr>x64 = Finite bx, y64 = Finite by\<rparr>)
             (computeDistance_f64 \<lparr>x64 = Finite bx, y64 = Finite by\<rparr>
                                 \<lparr>x64 = Finite ax, y64 = Finite ay\<rparr>)"
proof -
  have "f64_eq (computeDistance_f64 \<lparr>x64 = Finite ax, y64 = Finite ay\<rparr>
                                   \<lparr>x64 = Finite bx, y64 = Finite by\<rparr>)
               (computeDistance_f64 \<lparr>x64 = Finite ax, y64 = Finite ay\<rparr>
                                   \<lparr>x64 = Finite bx, y64 = Finite by\<rparr>)"
    using distance_f64_nonneg by (rule nonnegOrInf_eq)
  then show ?thesis
    by (simp only: distance_f64_swap [of bx "by" ax ay] distance_f64_self) simp
qed

text \<open>
  Claim C8 as stated fails for the points \<open>(0,0)\<close>, \<open>(1,1)\<close> and \<open>(4,4)\<close>: the computed distance
  from the first to the last is one unit in the last place above the rounded sum of the
  other two. It also fails for a point with an infinite coordinate, whose distance to
  itself is NaN.
\<close>

theorem C8_triangle_counterexample:
  "computeDistance_f64 \<lparr>x64 = Finite 0, y64 = Finite 0\<rparr> \<lparr>x64 = Finite 4, y64 = Finite 4\<rparr>
     = Finite (6369051672525773 / 2 ^ 50)
   \<and> f64_add (computeDistance_f64 \<lparr>x64 = Finite 0, y64 = Finite 0\<rparr> \<lparr>x64 = Finite 1, y64 = Finite 1\<rparr>)
             (computeDistance_f64 \<lparr>x64 = Finite 1, y64 = Finite 1\<rparr> \<lparr>x64 = Finite 4, y64 = Finite 4\<rparr>)
     = Finite (6369051672525772 / 2 ^ 50)
   \<and> \<not> f64_le (computeDistance_f64 \<lparr>x64 = Finite 0, y64 = Finite 0\<rparr> \<lparr>x64 = Finite 4, y64 = Finite 4\<rparr>)
         (f64_add (computeDistance_f64 \<lparr>x64 = Finite 0, y64 = Finite 0\<rparr> \<lparr>x64 = Finite 1, y64 = Finite 1\<rparr>)
                  (computeDistance_f64 \<lparr>x64 = Finite 1, y64 = Finite 1\<rparr> \<lparr>x64 = Finite 4, y64 = Finite 4\<rparr>))
   \<and> \<not> f64_eq (computeDistance_f64 \<lparr>x64 = PosInf, y64 = Finite 0\<rparr> \<lparr>x64 = PosInf, y64 = Finite 0\<rparr>)
         (Finite 0)"
proof -
  have s: "f64_add (computeDistance_f64 \<lparr>x64 = Finite 0, y64 = Finite 0\<rparr> \<lparr>x64 = Finite 1, y64 = Finite 1\<rparr>)
             (computeDistance_f64 \<lparr>x64 = Finite 1, y64 = Finite 1\<rparr> \<lparr>x64 = Finite 4, y64 = Finite 4\<rparr>)
     = Finite (6369051672525772 / 2 ^ 50)"
    unfolding distance_0_1 distance_1_4 detour_0_1_4 by simp
  have l: "\<not> f64_le (computeDistance_f64 \<lparr>x64 = Finite 0, y64 = Finite 0\<rparr> \<lparr>x64 = Finite 4, y64 = Finite 4\<rparr>)
         (f64_add (computeDistance_f64 \<lparr>x64 = Finite 0, y64 = Finite 0\<rparr> \<lparr>x64 = Finite 1, y64 = Finite 1\<rparr>)
                  (computeDistance_f64 \<lparr>x64 = Finite 1, y64 = Finite 1\<rparr> \<lparr>x64 = Finite 4, y64 = Finite 4\<rparr>))"
    unfolding s distance_0_4 by simp
  have i: "\<not> f64_eq (computeDistance_f64 \<lparr>x64 = PosInf, y64 = Finite 0\<rparr> \<lparr>x64 = PosInf, y64 = Finite 0\<rparr>)
         (Finite 0)"
    unfolding distance_f64_infinite by simp
  from distance_0_4 s l i show ?thesis by (intro conjI)
qed

text \<open>
  Claim C9. The palette index at the outer steps \<open>complexity = 1, \<dots>, 5\<close> is
  \<open>(complexity * 2) mod 8\<close>, which is \<open>2, 4, 6, 0, 2\<close>; the pen colours set are, in this
  order, indigo, crimson, olive, teal and indigo; every segment of the artwork has one of
  them (33 segments per outer step), and coral, gold, navy and maroon are never used.
\<close>

theorem C9_palette_use:
  "map (\<lambda>complexity. (complexity * 2) mod length colorPalette) [1..<6] = [2, 4, 6, 0, 2]
   \<and> map (\<lambda>complexity. colorPalette ! ((complexity * 2) mod length colorPalette)) [1..<6]
       = [''indigo'', ''crimson'', ''olive'', ''teal'', ''indigo'']
   \<and> createGeometricArtwork t
       = fold (\<lambda>(complexity, c) u. createGeometricArtwork_inner complexity 3 (color u c))
           [(1, ''indigo''), (2, ''crimson''), (3, ''olive''), (4, ''teal''), (5, ''indigo'')] t
   \<and> map seg_color (newSegments t (createGeometricArtwork t))
       = replicate 33 ''indigo'' @ replicate 33 ''crimson'' @ replicate 33 ''olive''
         @ replicate 33 ''teal'' @ replicate 33 ''indigo''
   \<and> ''coral'' \<notin> set (map seg_color (newSegments t (createGeometricArtwork t)))
   \<and> ''gold'' \<notin> set (map seg_color (newSegments t (createGeometricArtwork t)))
   \<and> ''navy'' \<notin> set (map seg_color (newSegments t (createGeometricArtwork t)))
   \<and> ''maroon'' \<notin> set (map seg_color (newSegments t (createGeometricArtwork t)))"
proof -
  have "set (map seg_color (newSegments t (createGeometricArtwork t)))
          = {''indigo'', ''crimson'', ''olive'', ''teal''}"
    unfolding artwork_segment_colours by auto
  then have "''coral'' \<notin> set (map seg_color (newSegments t (createGeometricArtwork t)))"
    and "''gold'' \<notin> set (map seg_color (newSegments t (createGeometricArtwork t)))"
    and "''navy'' \<notin> set (map seg_color (newSegments t (createGeometricArtwork t)))"
    and "''maroon'' \<notin> set (map seg_color (newSegments t (createGeometricArtwork t)))"
    by simp_all
  with palette_indices palette_colours artwork_colour_steps [of t] artwork_segment_colours [of t]
  show ?thesis by blast
qed

text \<open>
  Claim C10. Over the reals the chord length of an angle and of its conjugate to a full
  turn agree: \<open>calculateChordLength r a = calculateChordLength r (360 - a)\<close>.
\<close>

theorem C10_chord_conjugate_angle:
  "calculateChordLength r a = calculateChordLength r (360 - a)"
proof -
  have "(360 - a) / 2 * pi / 180 = pi - a / 2 * pi / 180"
    by (simp add: field_simps)
  then have "sin ((360 - a) / 2 * pi / 180) = sin (a / 2 * pi / 180)"
    by (simp only: sin_pi_minus)
  then show ?thesis
    by (simp add: calculateChordLength_def Let_def)
qed

end
